theory Spec2Isabelle
  imports Complex_Main "HOL-Library.Sublist"
begin


section \<open>JavaScript string primitives used by the sources\<close>

text \<open>
  Strings are \<open>char list\<close>. \<open>String.prototype.slice(s, e)\<close> with
  non-negative indices returns the characters at positions \<open>s \<le> i < e\<close>, clamped to
  the string, and the empty string when \<open>e \<le> s\<close>.
\<close>

definition slice :: "string \<Rightarrow> nat \<Rightarrow> nat \<Rightarrow> string" where
  "slice s i j = take (j - i) (drop i s)"

text \<open>\<open>s.startsWith(p)\<close> and \<open>s.includes(p)\<close>.\<close>

definition startsWith :: "string \<Rightarrow> string \<Rightarrow> bool" where
  "startsWith s p = (take (length p) s = p)"

fun includes_str :: "string \<Rightarrow> string \<Rightarrow> bool" where
  "includes_str [] p = (p = [])"
| "includes_str (c # cs) p = (startsWith (c # cs) p \<or> includes_str cs p)"

text \<open>
  \<open>s.lastIndexOf('/')\<close>: the index of the last slash, or \<open>-1\<close> (here \<open>None\<close>).
\<close>

fun lastIndexOf_from :: "nat \<Rightarrow> string \<Rightarrow> char \<Rightarrow> nat option" where
  "lastIndexOf_from i [] c = None"
| "lastIndexOf_from i (x # xs) c =
     (case lastIndexOf_from (Suc i) xs c of
        Some j \<Rightarrow> Some j
      | None \<Rightarrow> (if x = c then Some i else None))"

definition lastIndexOf :: "string \<Rightarrow> char \<Rightarrow> nat option" where
  "lastIndexOf s c = lastIndexOf_from 0 s c"

text \<open>
  The regular expression \<open>/["']([^"']+)["']/\<close> of \<open>extractImports\<close> and of
  \<open>validateCrossFileConsistency\<close>: the leftmost quote character that is followed by a
  non-empty run of non-quote characters and a closing quote. The run is maximal, since
  the character after a shorter run is not a quote. The result is capture group 1.
\<close>

definition is_quote :: "char \<Rightarrow> bool" where
  "is_quote c = (c = CHR 0x22 \<or> c = CHR 0x27)"

fun match_quoted :: "string \<Rightarrow> string option" where
  "match_quoted [] = None"
| "match_quoted (c # cs) =
     (if is_quote c \<and> takeWhile (\<lambda>x. \<not> is_quote x) cs \<noteq> []
         \<and> dropWhile (\<lambda>x. \<not> is_quote x) cs \<noteq> []
      then Some (takeWhile (\<lambda>x. \<not> is_quote x) cs)
      else match_quoted cs)"

section \<open>Structural model (types/index.ts)\<close>

datatype ContractType = Contract | Abstract | Interface | Library

datatype Visibility = Public | External | Internal | Private

datatype StateMutability = Pure | View | Payable | Nonpayable

record SolidityFunction =
  fn_name :: string
  fn_visibility :: Visibility
  fn_stateMutability :: "StateMutability option"
  fn_parameters :: "string list"
  fn_returns :: "string list"

record StateVariable =
  sv_name :: string
  sv_type :: string
  sv_visibility :: Visibility
  sv_constant :: bool
  sv_immutable :: bool

record SolidityContract =
  c_name :: string
  c_type :: ContractType
  c_filePath :: string
  c_imports :: "string list"
  c_inherits :: "string list"
  c_functions :: "SolidityFunction list"
  c_stateVariables :: "StateVariable list"
  c_usesUpgradeablePattern :: bool

datatype EdgeType = Import | Inheritance

record DependencyEdge =
  e_from :: string
  e_to :: string
  e_type :: EdgeType

record DependencyGraph =
  g_nodes :: "string list"
  g_edges :: "DependencyEdge list"

section \<open>Syntax trees of the external parser\<close>

text \<open>
  A Tree-sitter node as the analyzer reads it: the field name under which the node hangs
  in its parent (if any), its grammar type, its start and end index into the source text,
  and its children in order.
\<close>

datatype SyntaxNode =
  SyntaxNode (n_field: "string option") (n_type: string)
    (startIndex: nat) (endIndex: nat) (children: "SyntaxNode list")

definition nodeText :: "string \<Rightarrow> SyntaxNode \<Rightarrow> string" where
  "nodeText sourceCode n = slice sourceCode (startIndex n) (endIndex n)"

definition childForFieldName :: "SyntaxNode \<Rightarrow> string \<Rightarrow> SyntaxNode option" where
  "childForFieldName n f = find (\<lambda>c. n_field c = Some f) (children n)"

fun findNodesByType :: "SyntaxNode \<Rightarrow> string list \<Rightarrow> SyntaxNode list" where
  "findNodesByType (SyntaxNode f t s e cs) types =
     (if t \<in> set types then [SyntaxNode f t s e cs] else [])
     @ concat (map (\<lambda>c. findNodesByType c types) cs)"

fun findNodeByType :: "SyntaxNode \<Rightarrow> string \<Rightarrow> SyntaxNode option"
  and findNodeByType_list :: "SyntaxNode list \<Rightarrow> string \<Rightarrow> SyntaxNode option" where
  "findNodeByType (SyntaxNode f t s e cs) ty =
     (if t = ty then Some (SyntaxNode f t s e cs) else findNodeByType_list cs ty)"
| "findNodeByType_list [] ty = None"
| "findNodeByType_list (c # cs) ty =
     (case findNodeByType c ty of Some n \<Rightarrow> Some n | None \<Rightarrow> findNodeByType_list cs ty)"

section \<open>Contract extractor (analysis/solidityAnalyzer.ts)\<close>

definition UPGRADEABLE_PATTERNS :: "string list" where
  "UPGRADEABLE_PATTERNS =
     [''Initializable'', ''UUPSUpgradeable'', ''TransparentUpgradeableProxy'',
      ''BeaconProxy'', ''initialize('', ''upgradeTo('']"

text \<open>
  \<open>extractImports\<close>: one entry per import directive whose text holds a quoted literal,
  pushed in document order.
\<close>

fun extractImports_loop :: "string \<Rightarrow> SyntaxNode list \<Rightarrow> string list \<Rightarrow> string list" where
  "extractImports_loop sourceCode [] imports = imports"
| "extractImports_loop sourceCode (n # ns) imports =
     (case match_quoted (nodeText sourceCode n) of
        Some p \<Rightarrow> extractImports_loop sourceCode ns (imports @ [p])
      | None \<Rightarrow> extractImports_loop sourceCode ns imports)"

definition extractImports :: "SyntaxNode \<Rightarrow> string \<Rightarrow> string list" where
  "extractImports rootNode sourceCode =
     extractImports_loop sourceCode (findNodesByType rootNode [''import_directive'']) []"

text \<open>
  The inheritance loop of \<open>extractContract\<close>: a name is pushed when it is non-empty and
  not yet in the list.
\<close>

fun inherits_loop :: "string \<Rightarrow> SyntaxNode list \<Rightarrow> string list \<Rightarrow> string list" where
  "inherits_loop sourceCode [] inherits = inherits"
| "inherits_loop sourceCode (n # ns) inherits =
     (let inhName = nodeText sourceCode n in
      if inhName \<noteq> [] \<and> inhName \<notin> set inherits
      then inherits_loop sourceCode ns (inherits @ [inhName])
      else inherits_loop sourceCode ns inherits)"

definition extractInherits :: "SyntaxNode \<Rightarrow> string \<Rightarrow> string list" where
  "extractInherits node sourceCode =
     (case childForFieldName node ''inheritance'' of
        None \<Rightarrow> []
      | Some inheritanceNode \<Rightarrow>
          inherits_loop sourceCode
            (findNodesByType inheritanceNode [''identifier'', ''user_defined_type'']) [])"

text \<open>Template literals print numbers in decimal.\<close>

fun show_nat :: "nat \<Rightarrow> string" where
  "show_nat n =
     (if n < 10 then [char_of (48 + n)]
      else show_nat (n div 10) @ [char_of (48 + n mod 10)])"

text \<open>
  \<open>Date.now()\<close> is an integer number of milliseconds; it is printed in decimal too.
\<close>

function show_int :: "int \<Rightarrow> string" where
  "show_int i =
     (if i < 0 then CHR ''-'' # show_int (- i)
      else if i < 10 then [char_of (48 + i)]
      else show_int (i div 10) @ [char_of (48 + i mod 10)])"
  by pat_completeness auto
termination
  by (relation "measure (\<lambda>i. if i < 0 then nat (- i) + 1 else nat i)") auto

text \<open>
  \<open>String.prototype.trim\<close> on the ASCII white space characters (source texts are taken
  to be ASCII).
\<close>

definition is_space :: "char \<Rightarrow> bool" where
  "is_space c = (c \<in> set [CHR 0x20, CHR 0x09, CHR 0x0A, CHR 0x0B, CHR 0x0C, CHR 0x0D])"

definition trim :: "string \<Rightarrow> string" where
  "trim s = rev (dropWhile is_space (rev (dropWhile is_space s)))"

fun param_names :: "nat \<Rightarrow> nat \<Rightarrow> string list" where
  "param_names i 0 = []"
| "param_names i (Suc k) = (''param'' @ show_nat i) # param_names (Suc i) k"

definition function_visibility :: "SyntaxNode \<Rightarrow> string \<Rightarrow> Visibility" where
  "function_visibility node sourceCode =
     (case findNodeByType node ''visibility'' of
        None \<Rightarrow> Public
      | Some visibilityNode \<Rightarrow>
          (let visText = nodeText sourceCode visibilityNode in
           if visText = ''external'' then External
           else if visText = ''internal'' then Internal
           else if visText = ''private'' then Private
           else Public))"

definition function_mutability :: "SyntaxNode \<Rightarrow> string \<Rightarrow> StateMutability option" where
  "function_mutability node sourceCode =
     (case findNodeByType node ''state_mutability'' of
        None \<Rightarrow> None
      | Some mutabilityNode \<Rightarrow>
          (let mutText = nodeText sourceCode mutabilityNode in
           if mutText = ''pure'' then Some Pure
           else if mutText = ''view'' then Some View
           else if mutText = ''payable'' then Some Payable
           else None))"

definition function_parameters :: "SyntaxNode \<Rightarrow> string \<Rightarrow> string list" where
  "function_parameters node sourceCode =
     (case childForFieldName node ''parameters'' of
        None \<Rightarrow> []
      | Some paramNode \<Rightarrow>
          (let paramText = nodeText sourceCode paramNode;
               paramCount = length (filter (\<lambda>c. c = CHR '','') paramText)
                            + (if length (trim paramText) > 2 then 1 else 0)
           in param_names 0 paramCount))"

fun extractFunctions_loop ::
  "string \<Rightarrow> SyntaxNode list \<Rightarrow> SolidityFunction list \<Rightarrow> SolidityFunction list" where
  "extractFunctions_loop sourceCode [] functions = functions"
| "extractFunctions_loop sourceCode (node # ns) functions =
     (case childForFieldName node ''name'' of
        None \<Rightarrow> extractFunctions_loop sourceCode ns functions
      | Some nameNode \<Rightarrow>
          (let visibility = function_visibility node sourceCode in
           if visibility \<noteq> Public \<and> visibility \<noteq> External
           then extractFunctions_loop sourceCode ns functions
           else extractFunctions_loop sourceCode ns
                  (functions @
                   [\<lparr> fn_name = nodeText sourceCode nameNode,
                      fn_visibility = visibility,
                      fn_stateMutability = function_mutability node sourceCode,
                      fn_parameters = function_parameters node sourceCode,
                      fn_returns =
                        (case childForFieldName node ''return_parameters'' of
                           None \<Rightarrow> [] | Some r \<Rightarrow> [''returnValue'']) \<rparr>])))"

definition extractFunctions :: "SyntaxNode \<Rightarrow> string \<Rightarrow> SolidityFunction list" where
  "extractFunctions contractNode sourceCode =
     extractFunctions_loop sourceCode
       (findNodesByType contractNode [''function_definition'']) []"

definition variable_type :: "SyntaxNode \<Rightarrow> string \<Rightarrow> string" where
  "variable_type node sourceCode =
     (case findNodeByType node ''type_name'' of
        Some t \<Rightarrow> nodeText sourceCode t
      | None \<Rightarrow>
          (case findNodeByType node ''user_defined_type'' of
             Some t \<Rightarrow> nodeText sourceCode t
           | None \<Rightarrow>
               (case findNodeByType node ''elementary_type_name'' of
                  Some t \<Rightarrow> nodeText sourceCode t
                | None \<Rightarrow> ''unknown'')))"

fun extractStateVariables_loop ::
  "string \<Rightarrow> SyntaxNode list \<Rightarrow> StateVariable list \<Rightarrow> StateVariable list" where
  "extractStateVariables_loop sourceCode [] variables = variables"
| "extractStateVariables_loop sourceCode (node # ns) variables =
     (case findNodeByType node ''identifier'' of
        None \<Rightarrow> extractStateVariables_loop sourceCode ns variables
      | Some nameNode \<Rightarrow>
          (let varText = nodeText sourceCode node in
           extractStateVariables_loop sourceCode ns
             (variables @
              [\<lparr> sv_name = nodeText sourceCode nameNode,
                 sv_type = variable_type node sourceCode,
                 sv_visibility =
                   (if includes_str varText '' public '' then Public
                    else if includes_str varText '' private '' then Private
                    else Internal),
                 sv_constant = includes_str varText '' constant '',
                 sv_immutable = includes_str varText '' immutable '' \<rparr>])))"

definition extractStateVariables :: "SyntaxNode \<Rightarrow> string \<Rightarrow> StateVariable list" where
  "extractStateVariables contractNode sourceCode =
     extractStateVariables_loop sourceCode
       (findNodesByType contractNode [''state_variable_declaration'']) []"

definition contract_kind :: "SyntaxNode \<Rightarrow> string \<Rightarrow> ContractType" where
  "contract_kind node sourceCode =
     (if n_type node = ''interface_declaration'' then Interface
      else if n_type node = ''library_declaration'' then Library
      else if startsWith (nodeText sourceCode node) ''abstract '' then Abstract
      else Contract)"

text \<open>\<open>extractContract\<close>: \<open>None\<close> is the source's \<open>null\<close> for a nameless declaration.\<close>

definition extractContract ::
  "SyntaxNode \<Rightarrow> string \<Rightarrow> string \<Rightarrow> string list \<Rightarrow> SolidityContract option" where
  "extractContract node filePath sourceCode fileImports =
     (case childForFieldName node ''name'' of
        None \<Rightarrow> None
      | Some nameNode \<Rightarrow>
          Some \<lparr> c_name = nodeText sourceCode nameNode,
                 c_type = contract_kind node sourceCode,
                 c_filePath = filePath,
                 c_imports = fileImports,
                 c_inherits = extractInherits node sourceCode,
                 c_functions = extractFunctions node sourceCode,
                 c_stateVariables = extractStateVariables node sourceCode,
                 c_usesUpgradeablePattern =
                   list_ex (includes_str (nodeText sourceCode node)) UPGRADEABLE_PATTERNS \<rparr>)"

text \<open>
  \<open>parseFile\<close> after the file's text has been fetched and parsed: the import list of the
  file is shared by every contract unit of the file.
\<close>

definition extractContracts :: "string \<Rightarrow> string \<Rightarrow> SyntaxNode \<Rightarrow> SolidityContract list" where
  "extractContracts filePath content rootNode =
     (let imports = extractImports rootNode content in
      List.map_filter (\<lambda>node. extractContract node filePath content imports)
        (findNodesByType rootNode
           [''contract_declaration'', ''interface_declaration'', ''library_declaration'']))"

text \<open>
  The two collaborators of \<open>parseFile\<close>, the GitHub client and the Tree-sitter parser,
  are a parameter: for a file path, either the message of the exception thrown or the
  file's text with the root node of its tree (\<open>None\<close> when the tree has no root).
\<close>

type_synonym FileSource = "string \<Rightarrow> string + (string \<times> SyntaxNode option)"

definition parseFile :: "FileSource \<Rightarrow> string \<Rightarrow> string + SolidityContract list" where
  "parseFile src filePath =
     (case src filePath of
        Inl msg \<Rightarrow> Inl msg
      | Inr (content, None) \<Rightarrow> Inl ''Failed to parse AST''
      | Inr (content, Some rootNode) \<Rightarrow> Inr (extractContracts filePath content rootNode))"

section \<open>Dependency graph and entry points\<close>

text \<open>
  \<open>buildDependencyGraph\<close>: the node list is extended only by names it does not hold yet;
  every import path and every parent pushes an edge.
\<close>

definition add_node :: "string \<Rightarrow> string list \<Rightarrow> string list" where
  "add_node n nodes = (if n \<in> set nodes then nodes else nodes @ [n])"

fun add_targets :: "string \<Rightarrow> EdgeType \<Rightarrow> string list \<Rightarrow> DependencyGraph \<Rightarrow> DependencyGraph" where
  "add_targets src ty [] g = g"
| "add_targets src ty (t # ts) g =
     add_targets src ty ts
       \<lparr> g_nodes = add_node t (g_nodes g),
          g_edges = g_edges g @ [\<lparr> e_from = src, e_to = t, e_type = ty \<rparr>] \<rparr>"

definition add_contract :: "SolidityContract \<Rightarrow> DependencyGraph \<Rightarrow> DependencyGraph" where
  "add_contract c g =
     add_targets (c_name c) Inheritance (c_inherits c)
       (add_targets (c_name c) Import (c_imports c)
          (g\<lparr> g_nodes := add_node (c_name c) (g_nodes g) \<rparr>))"

fun buildDependencyGraph_loop :: "SolidityContract list \<Rightarrow> DependencyGraph \<Rightarrow> DependencyGraph" where
  "buildDependencyGraph_loop [] g = g"
| "buildDependencyGraph_loop (c # cs) g = buildDependencyGraph_loop cs (add_contract c g)"

definition buildDependencyGraph :: "SolidityContract list \<Rightarrow> DependencyGraph" where
  "buildDependencyGraph contracts =
     buildDependencyGraph_loop contracts \<lparr> g_nodes = [], g_edges = [] \<rparr>"

definition isOnlyInherited :: "string \<Rightarrow> DependencyGraph \<Rightarrow> bool" where
  "isOnlyInherited contractName graph =
     (let isInherited =
            list_ex (\<lambda>e. e_to e = contractName \<and> e_type e = Inheritance) (g_edges graph);
          isInheriting =
            list_ex (\<lambda>e. e_from e = contractName \<and> e_type e = Inheritance) (g_edges graph)
      in isInherited \<and> \<not> isInheriting)"

definition identifyEntryPoints :: "SolidityContract list \<Rightarrow> DependencyGraph \<Rightarrow> string list" where
  "identifyEntryPoints contracts graph =
     map c_name
       (filter (\<lambda>c. c_type c = Contract \<and> \<not> isOnlyInherited (c_name c) graph) contracts)"

section \<open>The analysis run\<close>

datatype FileType = Solidity | Typescript | Javascript | Config | Markdown | Other

record RepositoryFile =
  f_path :: string
  f_name :: string
  f_extension :: string
  f_type :: FileType
  f_size :: nat
  f_sha :: "string option"

datatype RepositoryDirectory =
  RepositoryDirectory (d_path: string) (d_name: string)
    (d_files: "RepositoryFile list") (d_subdirectories: "RepositoryDirectory list")

record RepositoryMetadata =
  m_owner :: string
  m_name :: string
  m_fullName :: string
  m_url :: string
  m_description :: "string option"
  m_defaultBranch :: string
  m_isPrivate :: bool
  m_size :: nat

record TreeStats =
  ts_totalFiles :: nat
  ts_solidityFiles :: nat
  ts_typescriptFiles :: nat
  ts_javascriptFiles :: nat
  ts_configFiles :: nat
  ts_otherFiles :: nat
  ts_totalSize :: nat

record RepositoryTree =
  t_metadata :: RepositoryMetadata
  t_root :: RepositoryDirectory
  t_stats :: TreeStats
  t_fetchedAt :: string

record AnalysisStats =
  as_totalContracts :: nat
  as_abstractContracts :: nat
  as_interfaces :: nat
  as_libraries :: nat
  as_totalFunctions :: nat
  as_parseErrors :: nat

record SolidityAnalysisResult =
  a_contracts :: "SolidityContract list"
  a_dependencyGraph :: DependencyGraph
  a_entryPointContracts :: "string list"
  a_upgradeableContracts :: "string list"
  a_stats :: AnalysisStats
  a_parseErrors :: "(string \<times> string) list"

fun findSolidityFiles :: "RepositoryDirectory \<Rightarrow> RepositoryFile list" where
  "findSolidityFiles (RepositoryDirectory p n files subdirs) =
     filter (\<lambda>f. f_type f = Solidity) files @ concat (map findSolidityFiles subdirs)"

text \<open>
  The parse loop of \<open>analyzeSolidity\<close>: a file that throws is recorded in
  \<open>parseErrors\<close> and the loop goes on.
\<close>

fun parse_loop ::
  "FileSource \<Rightarrow> RepositoryFile list \<Rightarrow> SolidityContract list \<times> (string \<times> string) list
     \<Rightarrow> SolidityContract list \<times> (string \<times> string) list" where
  "parse_loop src [] acc = acc"
| "parse_loop src (file # files) (contracts, parseErrors) =
     (case parseFile src (f_path file) of
        Inr fileContracts \<Rightarrow> parse_loop src files (contracts @ fileContracts, parseErrors)
      | Inl errorMsg \<Rightarrow>
          parse_loop src files (contracts, parseErrors @ [(f_path file, errorMsg)]))"

definition analyzeSolidity :: "FileSource \<Rightarrow> RepositoryTree \<Rightarrow> SolidityAnalysisResult" where
  "analyzeSolidity src repoTree =
     (let (contracts, parseErrors) = parse_loop src (findSolidityFiles (t_root repoTree)) ([], []);
          dependencyGraph = buildDependencyGraph contracts
      in \<lparr> a_contracts = contracts,
           a_dependencyGraph = dependencyGraph,
           a_entryPointContracts = identifyEntryPoints contracts dependencyGraph,
           a_upgradeableContracts = map c_name (filter c_usesUpgradeablePattern contracts),
           a_stats =
             \<lparr> as_totalContracts = length contracts,
                as_abstractContracts = length (filter (\<lambda>c. c_type c = Abstract) contracts),
                as_interfaces = length (filter (\<lambda>c. c_type c = Interface) contracts),
                as_libraries = length (filter (\<lambda>c. c_type c = Library) contracts),
                as_totalFunctions = sum_list (map (\<lambda>c. length (c_functions c)) contracts),
                as_parseErrors = length parseErrors \<rparr>,
           a_parseErrors = parseErrors \<rparr>)"

text \<open>
  The edges one contract unit contributes: its import paths, then its parents, in list
  order.
\<close>

definition contract_edges :: "SolidityContract \<Rightarrow> DependencyEdge list" where
  "contract_edges c =
     map (\<lambda>t. \<lparr> e_from = c_name c, e_to = t, e_type = Import \<rparr>) (c_imports c)
     @ map (\<lambda>t. \<lparr> e_from = c_name c, e_to = t, e_type = Inheritance \<rparr>) (c_inherits c)"

text \<open>A contract unit with no functions and no state variables, for concrete runs.\<close>

definition unit_of ::
  "string \<Rightarrow> ContractType \<Rightarrow> string \<Rightarrow> string list \<Rightarrow> string list \<Rightarrow> SolidityContract" where
  "unit_of n k p imps inhs =
     \<lparr> c_name = n, c_type = k, c_filePath = p, c_imports = imps, c_inherits = inhs,
        c_functions = [], c_stateVariables = [], c_usesUpgradeablePattern = False \<rparr>"

section \<open>Concrete repositories\<close>

text \<open>
  Scenario A: one file declaring \<open>contract Token {}\<close> and \<open>contract Sale is Token {}\<close>
  on two lines, 43 characters in all, with the tree of the tree-sitter-solidity grammar for
  it. In that grammar a \<open>contract_declaration\<close> is the sequence of an optional
  \<open>abstract\<close>, the word \<open>contract\<close>, the field \<open>name\<close>, an optional heritage clause
  and the field \<open>body\<close>. The heritage clause is the word \<open>is\<close> followed by
  \<open>inheritance_specifier\<close> nodes, which hang under no field; each holds a
  \<open>user_defined_type\<close> under the field \<open>ancestor\<close>. Key words and braces are nodes of
  their own, typed by their text.
\<close>

definition scenarioA_text :: string where
  "scenarioA_text = ''contract Token {}'' @ [CHR 0x0A] @ ''contract Sale is Token {}''"

definition scenarioA_root :: SyntaxNode where
  "scenarioA_root =
     SyntaxNode None ''source_file'' 0 43
       [SyntaxNode None ''contract_declaration'' 0 17
          [SyntaxNode None ''contract'' 0 8 [],
           SyntaxNode (Some ''name'') ''identifier'' 9 14 [],
           SyntaxNode (Some ''body'') ''contract_body'' 15 17
             [SyntaxNode None ''{'' 15 16 [],
              SyntaxNode None ''}'' 16 17 []]],
        SyntaxNode None ''contract_declaration'' 18 43
          [SyntaxNode None ''contract'' 18 26 [],
           SyntaxNode (Some ''name'') ''identifier'' 27 31 [],
           SyntaxNode None ''is'' 32 34 [],
           SyntaxNode None ''inheritance_specifier'' 35 40
             [SyntaxNode (Some ''ancestor'') ''user_defined_type'' 35 40
                [SyntaxNode None ''identifier'' 35 40 []]],
           SyntaxNode (Some ''body'') ''contract_body'' 41 43
             [SyntaxNode None ''{'' 41 42 [],
              SyntaxNode None ''}'' 42 43 []]]]"

text \<open>A file that repeats one import directive, followed by \<open>contract C {}\<close>.\<close>

definition dupImport_text :: string where
  "dupImport_text =
     ''import '' @ [CHR 0x22] @ ''./A.sol'' @ [CHR 0x22] @ '';'' @ [CHR 0x0A] @
     ''import '' @ [CHR 0x22] @ ''./A.sol'' @ [CHR 0x22] @ '';'' @ [CHR 0x0A] @
     ''contract C {}''"

definition dupImport_root :: SyntaxNode where
  "dupImport_root =
     SyntaxNode None ''source_file'' 0 49
       [SyntaxNode None ''import_directive'' 0 17 [],
        SyntaxNode None ''import_directive'' 18 35 [],
        SyntaxNode None ''contract_declaration'' 36 49
          [SyntaxNode (Some ''name'') ''identifier'' 45 46 [],
           SyntaxNode (Some ''body'') ''contract_body'' 47 49 []]]"

definition sol_file :: "string \<Rightarrow> RepositoryFile" where
  "sol_file p = \<lparr> f_path = p, f_name = p, f_extension = ''.sol'', f_type = Solidity,
                  f_size = 0, f_sha = None \<rparr>"

definition tree_of :: "RepositoryFile list \<Rightarrow> RepositoryTree" where
  "tree_of fs =
     \<lparr> t_metadata = \<lparr> m_owner = ''o'', m_name = ''r'', m_fullName = ''o/r'',
                       m_url = ''https://github.com/o/r'',
                       m_description = None, m_defaultBranch = ''main'', m_isPrivate = False,
                       m_size = 0 \<rparr>,
        t_root = RepositoryDirectory [] [] fs [],
        t_stats = \<lparr> ts_totalFiles = length fs, ts_solidityFiles = length fs,
                    ts_typescriptFiles = 0, ts_javascriptFiles = 0, ts_configFiles = 0,
                    ts_otherFiles = 0, ts_totalSize = 0 \<rparr>,
        t_fetchedAt = [] \<rparr>"

text \<open>File sources that serve one fixed text and tree for every path.\<close>

definition scenarioA_source :: FileSource where
  "scenarioA_source = (\<lambda>p. Inr (scenarioA_text, Some scenarioA_root))"

definition dupImport_source :: FileSource where
  "dupImport_source = (\<lambda>p. Inr (dupImport_text, Some dupImport_root))"

section \<open>Migration planner (agents/migrationPlanner.ts)\<close>

datatype ConfidenceLevel = Low | Medium | High

datatype ChangeCategory =
  GasOptimization | MonadFeature | EvmCompatibility | Performance | Architecture
  | SecurityConsideration

record MigrationRecommendation =
  r_filePath :: string
  r_contractName :: string
  r_changeCategory :: ChangeCategory
  r_recommendedChange :: string
  r_rationale :: string
  r_confidenceLevel :: ConfidenceLevel
  r_affectedContracts :: "string list option"
  r_references :: "string list option"

record PlanSummary =
  ps_totalFilesAnalyzed :: nat
  ps_totalContractsAnalyzed :: nat
  ps_totalRecommendations :: nat
  ps_highConfidenceCount :: nat
  ps_mediumConfidenceCount :: nat
  ps_lowConfidenceCount :: nat

record MigrationPlan =
  p_repositoryName :: string
  p_timestamp :: string
  p_analysisId :: string
  p_monadVersion :: string
  p_recommendations :: "MigrationRecommendation list"
  p_summary :: PlanSummary
  p_assumptions :: "string list"
  p_limitations :: "string list"
  p_nextSteps :: "string list"

text \<open>
  What \<open>client.messages.create\<close> gives back: the call throws, or the first content
  block is not text, or it is text.
\<close>

datatype LLMResponse = ApiError string | NonText | Text string

text \<open>
  The regular expressions \<open>/\[[\s\S]*\]/\<close> and \<open>/\{[\s\S]*\}/\<close>: from the first
  opening bracket to the last closing bracket behind it.
\<close>

definition match_span :: "char \<Rightarrow> char \<Rightarrow> string \<Rightarrow> string option" where
  "match_span opening closing text =
     (let s = dropWhile (\<lambda>c. c \<noteq> opening) text in
      case s of
        [] \<Rightarrow> None
      | c # rest \<Rightarrow>
          (case lastIndexOf rest closing of
             None \<Rightarrow> None
           | Some j \<Rightarrow> Some (c # take (Suc j) rest)))"

text \<open>The single recommendation returned when the response cannot be parsed.\<close>

definition fallbackRecommendation :: MigrationRecommendation where
  "fallbackRecommendation =
     \<lparr> r_filePath = ''general'',
        r_contractName = ''General'',
        r_changeCategory = Architecture,
        r_recommendedChange = ''Review Claude response for detailed recommendations'',
        r_rationale = ''LLM analysis completed but response parsing requires verification'',
        r_confidenceLevel = Low,
        r_affectedContracts = None,
        r_references = None \<rparr>"

text \<open>
  \<open>generateRecommendations\<close>. \<open>JSON.parse\<close>, cast by the source to a list of
  recommendations, is the parameter \<open>jsonParse\<close>: \<open>None\<close> when it throws. A text that
  starts with an opening square bracket and parses is an array, so the source's
  \<open>Array.isArray\<close> test cannot fail behind a successful parse. The result is \<open>Inl\<close> with
  the message when the function throws.
\<close>

definition generateRecommendations ::
  "(string \<Rightarrow> MigrationRecommendation list option) \<Rightarrow> LLMResponse
     \<Rightarrow> string + MigrationRecommendation list" where
  "generateRecommendations jsonParse response =
     (case response of
        ApiError msg \<Rightarrow> Inl msg
      | NonText \<Rightarrow> Inl ''Unexpected response type from Claude''
      | Text text \<Rightarrow>
          (case match_span (CHR ''['') (CHR '']'') text of
             None \<Rightarrow> Inr [fallbackRecommendation]
           | Some jsonMatch \<Rightarrow>
               (case jsonParse jsonMatch of
                  None \<Rightarrow> Inr [fallbackRecommendation]
                | Some recommendations \<Rightarrow> Inr recommendations)))"

definition buildAssumptions :: "SolidityAnalysisResult \<Rightarrow> string list" where
  "buildAssumptions analysis =
     [''Monad maintains full EVM bytecode compatibility'',
      ''Solidity compiler versions used are compatible with EVM target'',
      ''External dependencies exist or will be deployed to Monad'',
      ''Block time and gas model assumptions match Ethereum'',
      ''No reliance on specific validator/miner behavior (MEV)'']
     @ (if length (a_parseErrors analysis) > 0
        then [''Some contracts could not be fully analyzed due to parse errors - manual review recommended'']
        else [])
     @ (if list_ex c_usesUpgradeablePattern (a_contracts analysis)
        then [''UUPS/proxy patterns are compatible with Monad as-is'']
        else [])"

definition buildLimitations :: "SolidityAnalysisResult \<Rightarrow> string list" where
  "buildLimitations analysis =
     [''AST analysis does not include runtime behavior or potential exploits'',
      ''Gas optimization suggestions are estimates - actual gas costs may vary'',
      ''Assembly code analysis is limited - manual review required'',
      ''External library compatibility cannot be fully determined from source analysis'']
     @ (if length (a_parseErrors analysis) > 0
        then [show_nat (length (a_parseErrors analysis)) @ '' contracts could not be analyzed'']
        else [])"

text \<open>
  \<open>planMigration\<close>. The model's answer to the prompt built from the repository metadata
  and the analysis is the parameter \<open>llm\<close>; \<open>isoNow\<close> and \<open>now\<close> are the readings of
  \<open>new Date().toISOString()\<close> and \<open>Date.now()\<close>.
\<close>

record PlannerEnv =
  pe_llm :: "RepositoryMetadata \<Rightarrow> SolidityAnalysisResult \<Rightarrow> LLMResponse"
  pe_jsonParse :: "string \<Rightarrow> MigrationRecommendation list option"

definition planMigration ::
  "PlannerEnv \<Rightarrow> string \<Rightarrow> int \<Rightarrow> RepositoryMetadata \<Rightarrow> SolidityAnalysisResult
     \<Rightarrow> string + MigrationPlan" where
  "planMigration env isoNow now repoMetadata analysisResult =
     (case generateRecommendations (pe_jsonParse env) (pe_llm env repoMetadata analysisResult) of
        Inl msg \<Rightarrow> Inl msg
      | Inr recommendations \<Rightarrow>
          Inr \<lparr> p_repositoryName = m_fullName repoMetadata,
                p_timestamp = isoNow,
                p_analysisId = m_fullName repoMetadata @ ''-'' @ show_int now,
                p_monadVersion = ''1.0.0'',
                p_recommendations = recommendations,
                p_summary =
                  \<lparr> ps_totalFilesAnalyzed = length (a_contracts analysisResult),
                     ps_totalContractsAnalyzed = as_totalContracts (a_stats analysisResult),
                     ps_totalRecommendations = length recommendations,
                     ps_highConfidenceCount =
                       length (filter (\<lambda>r. r_confidenceLevel r = High) recommendations),
                     ps_mediumConfidenceCount =
                       length (filter (\<lambda>r. r_confidenceLevel r = Medium) recommendations),
                     ps_lowConfidenceCount =
                       length (filter (\<lambda>r. r_confidenceLevel r = Low) recommendations) \<rparr>,
                p_assumptions = buildAssumptions analysisResult,
                p_limitations = buildLimitations analysisResult,
                p_nextSteps =
                  [''Review recommendations and categorize by priority'',
                   ''Create a deployment checklist based on high-confidence items'',
                   ''Set up testnet environment on Monad'',
                   ''Deploy and test each contract migration in isolation'',
                   ''Perform load testing for parallelization scenarios'',
                   ''Audit critical contracts pre-mainnet deployment''] \<rparr>)"

section \<open>JavaScript numbers\<close>

text \<open>
  A JavaScript number is an IEEE 754 binary64 value. A finite one is \<open>m * 2 ^ e\<close> for
  integers \<open>m\<close> and \<open>e\<close> with \<open>\<bar>m\<bar> < 2 ^ 53\<close> and \<open>- 1074 \<le> e\<close>, and it is kept here in
  its one normal form: \<open>2 ^ 52 \<le> \<bar>m\<bar>\<close> for a value from \<open>2 ^ - 1022\<close> on, \<open>e = - 1074\<close> for
  a smaller one, and \<open>Number 0 0\<close> for zero. The infinities, \<open>NaN\<close> and the negative zero
  are not modelled: the scores reach them only by a division by zero or beyond
  \<open>2 ^ 1024\<close>.
\<close>

datatype Number = Number (significand: int) (exponent: int)

text \<open>
  \<open>binade p q\<close> is the exponent \<open>e\<close> with \<open>2 ^ e \<le> p / q < 2 ^ (e + 1)\<close>, for positive
  integers \<open>p\<close> and \<open>q\<close>.
\<close>

function binade_up :: "int \<Rightarrow> int \<Rightarrow> int" where
  "binade_up p q = (if 0 < q \<and> 2 * q \<le> p then binade_up p (2 * q) + 1 else 0)"
  by pat_completeness auto
termination
  by (relation "measure (\<lambda>(p, q). nat (p - q))") auto

declare binade_up.simps [simp del]

function binade_down :: "int \<Rightarrow> int \<Rightarrow> int" where
  "binade_down p q = (if 0 < p \<and> p < q then binade_down (2 * p) q - 1 else 0)"
  by pat_completeness auto
termination
  by (relation "measure (\<lambda>(p, q). nat (q - p))") auto

declare binade_down.simps [simp del]

definition binade :: "int \<Rightarrow> int \<Rightarrow> int" where
  "binade p q = (if q \<le> p then binade_up p q else binade_down p q)"

text \<open>
  The integer nearest to \<open>p / q\<close>, for a positive \<open>q\<close>; a tie goes to the even integer.
\<close>

definition round_even :: "int \<Rightarrow> int \<Rightarrow> int" where
  "round_even p q =
     (let n = p div q; r = p mod q in
      if 2 * r < q then n
      else if q < 2 * r then n + 1
      else if even n then n else n + 1)"

text \<open>
  The binary64 value nearest to the ratio \<open>p / q\<close> of two integers, \<open>q\<close> positive, a tie
  going to the even significand: the exact results of the arithmetic operations and the
  decimal literals are rounded this way. The binary64 values of the binade \<open>e\<close> are the
  multiples of \<open>2 ^ (e - 52)\<close>, and below \<open>2 ^ - 1022\<close> the multiples of \<open>2 ^ - 1074\<close>.
\<close>

definition nearest_double :: "int \<Rightarrow> int \<Rightarrow> Number" where
  "nearest_double p q =
     (if p = 0 then Number 0 0
      else
        let s = max (binade \<bar>p\<bar> q) (- 1022) - 52;
            n = (if 0 \<le> s then round_even \<bar>p\<bar> (q * 2 ^ nat s)
                 else round_even (\<bar>p\<bar> * 2 ^ nat (- s)) q)
        in if n = 2 ^ 53 then Number (sgn p * 2 ^ 52) (s + 1) else Number (sgn p * n) s)"

text \<open>A number as the ratio of two integers, and as a real.\<close>

definition numerator :: "Number \<Rightarrow> int" where
  "numerator x =
     (if 0 \<le> exponent x then significand x * 2 ^ nat (exponent x) else significand x)"

definition denominator :: "Number \<Rightarrow> int" where
  "denominator x = (if 0 \<le> exponent x then 1 else 2 ^ nat (- exponent x))"

definition real_of :: "Number \<Rightarrow> real" where
  "real_of x = of_int (numerator x) / of_int (denominator x)"

text \<open>The powers of two as reals.\<close>

definition pow2 :: "int \<Rightarrow> real" where
  "pow2 e = (if 0 \<le> e then 2 ^ nat e else 1 / 2 ^ nat (- e))"

text \<open>
  An integer literal and the length of an array (an integer below \<open>2 ^ 32\<close>) are numbers
  as they stand.
\<close>

definition js_int :: "int \<Rightarrow> Number" where
  "js_int k = nearest_double k 1"

definition js_length :: "'a list \<Rightarrow> Number" where
  "js_length xs = js_int (int (length xs))"

text \<open>The operators \<open>+\<close>, \<open>*\<close>, \<open>/\<close> and \<open><\<close> on numbers.\<close>

definition js_add :: "Number \<Rightarrow> Number \<Rightarrow> Number" where
  "js_add a b =
     nearest_double (numerator a * denominator b + numerator b * denominator a)
       (denominator a * denominator b)"

definition js_mul :: "Number \<Rightarrow> Number \<Rightarrow> Number" where
  "js_mul a b = nearest_double (numerator a * numerator b) (denominator a * denominator b)"

definition js_div :: "Number \<Rightarrow> Number \<Rightarrow> Number" where
  "js_div a b =
     (if numerator b < 0
      then nearest_double (- (numerator a * denominator b)) (denominator a * (- numerator b))
      else nearest_double (numerator a * denominator b) (denominator a * numerator b))"

definition js_less :: "Number \<Rightarrow> Number \<Rightarrow> bool" where
  "js_less a b \<longleftrightarrow> numerator a * denominator b < numerator b * denominator a"

text \<open>
  \<open>Math.round\<close>: the integer \<open>\<lfloor>x + 1 / 2\<rfloor>\<close>, the value nearest to \<open>x\<close> with halves going
  upwards.
\<close>

definition Math_round :: "Number \<Rightarrow> Number" where
  "Math_round x = js_int ((2 * numerator x + denominator x) div (2 * denominator x))"

section \<open>Transformer agent (agents/transformer.ts)\<close>

record LineRange =
  lr_start :: nat
  lr_end :: nat

record RawChange =
  rc_type :: string
  rc_description :: string
  rc_originalSnippet :: string
  rc_transformedSnippet :: string
  rc_lineRange :: "LineRange option"

datatype Action = Apply | Skip | OtherAction

text \<open>
  The parsed answer of the code transformer. It is untrusted JSON, so the list of applied
  changes, the transformed code and the warnings may be missing.
\<close>

record PerFileTransformation =
  pt_action :: Action
  pt_reason :: "string option"
  pt_appliedChanges :: "RawChange list option"
  pt_transformedCode :: "string option"
  pt_warnings :: "string list option"

record TransformationContext =
  tc_filePath :: string
  tc_originalContent :: string
  tc_recommendations :: "MigrationRecommendation list"
  tc_contractNames :: "string list"
  tc_importedContracts :: "string list"

record AppliedChange =
  ac_changeIndex :: nat
  ac_recommendationId :: string
  ac_description :: string
  ac_originalCode :: string
  ac_transformedCode :: string
  ac_lineNumbers :: "LineRange option"

record SkippedChange =
  sc_changeIndex :: nat
  sc_recommendationId :: string
  sc_description :: string
  sc_reason :: string

text \<open>The scores are JavaScript numbers.\<close>

record TransformedFile =
  tf_filePath :: string
  tf_originalContent :: string
  tf_transformedContent :: string
  tf_appliedChanges :: "AppliedChange list"
  tf_skippedChanges :: "SkippedChange list"
  tf_hasChanges :: bool
  tf_confidenceScore :: Number
  tf_warnings :: "string list"

record FileTransformReport =
  fr_filePath :: string
  fr_success :: bool
  fr_appliedChangesCount :: nat
  fr_skippedChangesCount :: nat
  fr_confidenceScore :: Number
  fr_warnings :: "string list"
  fr_diffPreview :: string

record ConsistencyReport =
  cc_checked :: bool
  cc_importsValid :: bool
  cc_inheritanceValid :: bool
  cc_issues :: "string list"

record ReportSummary =
  rs_overallConfidence :: Number
  rs_recommendations :: "string list"
  rs_nextSteps :: "string list"

record TransformationReport =
  tr_repositoryName :: string
  tr_timestamp :: string
  tr_transformationId :: string
  tr_filesProcessed :: nat
  tr_filesModified :: nat
  tr_filesSkipped :: nat
  tr_totalAppliedChanges :: nat
  tr_totalSkippedChanges :: nat
  tr_fileReports :: "FileTransformReport list"
  tr_crossFileConsistency :: ConsistencyReport
  tr_summary :: ReportSummary
  tr_errors :: "(string option \<times> string) list"

text \<open>
  The collaborators of the transformer: the file fetch (\<open>None\<close> is the source's
  \<open>null\<close>), the model's answer to the prompt built from a context, and \<open>JSON.parse\<close> on
  the matched text (\<open>Inl\<close> the message of the exception).
\<close>

record TransformerEnv =
  te_getFileContent :: "string \<Rightarrow> string option"
  te_llm :: "TransformationContext \<Rightarrow> LLMResponse"
  te_jsonParse :: "string \<Rightarrow> string + PerFileTransformation"

text \<open>
  \<open>groupRecommendationsByFile\<close>: a \<open>Map\<close> keeps its keys in insertion order, so it is
  an association list whose keys are pairwise different.
\<close>

fun group_add ::
  "MigrationRecommendation \<Rightarrow> (string \<times> MigrationRecommendation list) list
     \<Rightarrow> (string \<times> MigrationRecommendation list) list" where
  "group_add rec [] = [(r_filePath rec, [rec])]"
| "group_add rec ((k, rs) # rest) =
     (if k = r_filePath rec then (k, rs @ [rec]) # rest else (k, rs) # group_add rec rest)"

definition groupRecommendationsByFile ::
  "MigrationPlan \<Rightarrow> (string \<times> MigrationRecommendation list) list" where
  "groupRecommendationsByFile plan = fold group_add (p_recommendations plan) []"

text \<open>\<open>Map.prototype.set\<close> on an association list in insertion order.\<close>

fun map_set :: "'k \<Rightarrow> 'v \<Rightarrow> ('k \<times> 'v) list \<Rightarrow> ('k \<times> 'v) list" where
  "map_set k v [] = [(k, v)]"
| "map_set k v ((k', v') # rest) =
     (if k' = k then (k, v) # rest else (k', v') # map_set k v rest)"

text \<open>
  \<open>performFileTransformation\<close>: \<open>Inl\<close> is the message of the exception it throws; an
  answer without a JSON object, or one that does not parse, becomes a skip.
\<close>

definition performFileTransformation ::
  "TransformerEnv \<Rightarrow> TransformationContext \<Rightarrow> string + PerFileTransformation" where
  "performFileTransformation env context =
     (case te_llm env context of
        ApiError msg \<Rightarrow> Inl msg
      | NonText \<Rightarrow> Inl ''Unexpected response type from Claude''
      | Text text \<Rightarrow>
          (case match_span (CHR ''{'') (CHR ''}'') text of
             None \<Rightarrow>
               Inr \<lparr> pt_action = Skip,
                     pt_reason = Some ''Failed to parse transformation response'',
                     pt_appliedChanges = Some [],
                     pt_transformedCode = None,
                     pt_warnings = Some [''Claude response parsing failed''] \<rparr>
           | Some jsonMatch \<Rightarrow>
               (case te_jsonParse env jsonMatch of
                  Inl parseError \<Rightarrow>
                    Inr \<lparr> pt_action = Skip,
                          pt_reason = Some ''Failed to parse Claude JSON response'',
                          pt_appliedChanges = Some [],
                          pt_transformedCode = None,
                          pt_warnings = Some [''JSON parsing error: '' @ parseError] \<rparr>
                | Inr result \<Rightarrow> Inr result)))"

text \<open>
  \<open>calculateConfidenceScore\<close>. The source divides by \<open>recommendations.length\<close>; it is
  called on the groups of \<open>groupRecommendationsByFile\<close> only, which are never empty.
\<close>

definition level_confidence :: "MigrationRecommendation \<Rightarrow> Number" where
  "level_confidence r =
     (if r_confidenceLevel r = High then nearest_double 9 10
      else if r_confidenceLevel r = Medium then nearest_double 6 10
      else nearest_double 3 10)"

definition calculateConfidenceScore ::
  "AppliedChange list \<Rightarrow> MigrationRecommendation list \<Rightarrow> Number" where
  "calculateConfidenceScore appliedChanges recommendations =
     (if length appliedChanges = 0 then js_int 0
      else
        let avgConfidence =
              js_div
                (fold (\<lambda>r sum. js_add sum (level_confidence r)) recommendations (js_int 0))
                (js_length recommendations);
            applicationRate = js_div (js_length appliedChanges) (js_length recommendations)
        in js_div (Math_round (js_mul (js_mul avgConfidence applicationRate) (js_int 100)))
             (js_int 100))"

fun applied_from :: "string \<Rightarrow> nat \<Rightarrow> RawChange list \<Rightarrow> AppliedChange list" where
  "applied_from filePath i [] = []"
| "applied_from filePath i (change # changes) =
     \<lparr> ac_changeIndex = i,
        ac_recommendationId = filePath @ ''-'' @ show_nat i,
        ac_description = rc_description change,
        ac_originalCode = rc_originalSnippet change,
        ac_transformedCode = rc_transformedSnippet change,
        ac_lineNumbers = rc_lineRange change \<rparr>
     # applied_from filePath (Suc i) changes"

fun skipped_from ::
  "string \<Rightarrow> string \<Rightarrow> nat \<Rightarrow> MigrationRecommendation list \<Rightarrow> SkippedChange list" where
  "skipped_from filePath reason i [] = []"
| "skipped_from filePath reason i (r # rs) =
     \<lparr> sc_changeIndex = i,
        sc_recommendationId = filePath @ ''-'' @ show_nat i,
        sc_description = r_recommendedChange r,
        sc_reason = reason \<rparr>
     # skipped_from filePath reason (Suc i) rs"

text \<open>\<open>a || b\<close> on an optional string: the empty string is falsy.\<close>

definition or_else :: "string option \<Rightarrow> string \<Rightarrow> string" where
  "or_else a b = (case a of None \<Rightarrow> b | Some s \<Rightarrow> if s = [] then b else s)"

definition transformFile ::
  "TransformerEnv \<Rightarrow> SolidityAnalysisResult \<Rightarrow> string \<Rightarrow> MigrationRecommendation list
     \<Rightarrow> string + TransformedFile" where
  "transformFile env analysisResult filePath recommendations =
     (case te_getFileContent env filePath of
        None \<Rightarrow> Inl (''Could not fetch file content: '' @ filePath)
      | Some originalContent \<Rightarrow>
          if originalContent = [] then Inl (''Could not fetch file content: '' @ filePath)
          else
            let contract = find (\<lambda>c. c_filePath c = filePath) (a_contracts analysisResult);
                context =
                  \<lparr> tc_filePath = filePath,
                     tc_originalContent = originalContent,
                     tc_recommendations = recommendations,
                     tc_contractNames = (case contract of None \<Rightarrow> [] | Some c \<Rightarrow> [c_name c]),
                     tc_importedContracts =
                       (case contract of None \<Rightarrow> [] | Some c \<Rightarrow> c_imports c) \<rparr>
            in case performFileTransformation env context of
                 Inl msg \<Rightarrow> Inl msg
               | Inr transformation \<Rightarrow>
                   let appliedChanges =
                         (case pt_appliedChanges transformation of
                            Some changes \<Rightarrow>
                              if pt_action transformation = Apply
                              then applied_from filePath 0 changes else []
                          | None \<Rightarrow> []);
                       skippedChanges =
                         (if pt_action transformation = Skip
                          then skipped_from filePath
                                 (or_else (pt_reason transformation)
                                    ''Ambiguous or unsafe transformation'')
                                 0 recommendations
                          else []);
                       hasChanges = length appliedChanges > 0
                   in Inr \<lparr> tf_filePath = filePath,
                            tf_originalContent = originalContent,
                            tf_transformedContent =
                              (if hasChanges
                               then or_else (pt_transformedCode transformation) originalContent
                               else originalContent),
                            tf_appliedChanges = appliedChanges,
                            tf_skippedChanges = skippedChanges,
                            tf_hasChanges = hasChanges,
                            tf_confidenceScore =
                              calculateConfidenceScore appliedChanges recommendations,
                            tf_warnings =
                              (case pt_warnings transformation of
                                 None \<Rightarrow> [] | Some w \<Rightarrow> w) \<rparr>)"

text \<open>\<open>generateDiffPreview\<close>, with \<open>split\<close>, \<open>join\<close> and reads past the last line.\<close>

fun split_on :: "char \<Rightarrow> string \<Rightarrow> string list" where
  "split_on c [] = [[]]"
| "split_on c (x # xs) =
     (if x = c then [] # split_on c xs
      else case split_on c xs of
             [] \<Rightarrow> [[x]]
           | l # ls \<Rightarrow> (x # l) # ls)"

fun join_with :: "string \<Rightarrow> string list \<Rightarrow> string" where
  "join_with sep [] = []"
| "join_with sep [l] = l"
| "join_with sep (l # ls) = l @ sep @ join_with sep ls"

definition line_at :: "string list \<Rightarrow> nat \<Rightarrow> string option" where
  "line_at ls i = (if i < length ls then Some (ls ! i) else None)"

definition print_line :: "string option \<Rightarrow> string" where
  "print_line l = (case l of None \<Rightarrow> ''undefined'' | Some s \<Rightarrow> s)"

definition generateDiffPreview :: "string \<Rightarrow> string \<Rightarrow> string" where
  "generateDiffPreview original transformed =
     (if original = transformed then []
      else
        let originalLines = split_on (CHR 0x0A) original;
            transformedLines = split_on (CHR 0x0A) transformed;
            maxLines = max (length originalLines) (length transformedLines);
            diffs = concat (map (\<lambda>i.
                      if line_at originalLines i \<noteq> line_at transformedLines i
                      then [''-  '' @ print_line (line_at originalLines i),
                            ''+  '' @ print_line (line_at transformedLines i)]
                      else []) [0 ..< min maxLines 10])
        in take 500 (join_with [CHR 0x0A] diffs))"

text \<open>
  The regular expression \<open>/import\s+["{]([^"}]+)["}]/g\<close> of
  \<open>validateCrossFileConsistency\<close>. \<open>match_import_at\<close> matches it at the head of a
  text and returns the matched text with the rest behind it: the word \<open>import\<close>, a
  non-empty run of white space, a double quote or an opening brace, a non-empty run of
  characters other than the double quote and the closing brace, and one of these two.
  Both runs are maximal, since the character behind a shorter run cannot match what
  follows. White space is the ASCII white space of \<open>trim\<close>. \<open>match_imports\<close> is the
  list of the non-overlapping matches from left to right that \<open>String.prototype.match\<close>
  returns for a global expression.
\<close>

definition is_import_close :: "char \<Rightarrow> bool" where
  "is_import_close c = (c = CHR 0x22 \<or> c = CHR ''}'')"

definition match_import_at :: "string \<Rightarrow> (string \<times> string) option" where
  "match_import_at s =
     (if startsWith s ''import'' then
        let r1 = drop 6 s;
            ws = takeWhile is_space r1;
            r2 = dropWhile is_space r1
        in if ws = [] then None
           else case r2 of
                  [] \<Rightarrow> None
                | opening # r3 \<Rightarrow>
                    if opening = CHR 0x22 \<or> opening = CHR ''{'' then
                      let body = takeWhile (\<lambda>c. \<not> is_import_close c) r3;
                          r4 = dropWhile (\<lambda>c. \<not> is_import_close c) r3
                      in case r4 of
                           [] \<Rightarrow> None
                         | closing # r5 \<Rightarrow>
                             if body = [] then None
                             else Some (''import'' @ ws @ [opening] @ body @ [closing], r5)
                    else None
      else None)"

function match_imports :: "string \<Rightarrow> string list" where
  "match_imports [] = []"
| "match_imports (c # cs) =
     (case match_import_at (c # cs) of
        Some (m, rest) \<Rightarrow> m # match_imports rest
      | None \<Rightarrow> match_imports cs)"
  by pat_completeness auto
termination
proof (relation "measure length")
  show "wf (measure length)" by simp
next
  fix c :: char and cs
  show "(cs, c # cs) \<in> measure length" by simp
next
  fix c :: char and cs x2 m rest
  assume a: "match_import_at (c # cs) = Some x2" "(m, rest) = x2"
  define s where "s = c # cs"
  from a obtain op r3 cl where
    1: "dropWhile is_space (drop 6 s) = op # r3" and
    2: "dropWhile (\<lambda>c. \<not> is_import_close c) r3 = cl # rest"
    unfolding s_def match_import_at_def Let_def
    by (auto split: if_splits list.splits)
  have "length rest < length (dropWhile (\<lambda>c. \<not> is_import_close c) r3)" using 2 by simp
  also have "\<dots> \<le> length r3" by (rule length_dropWhile_le)
  also have "length r3 < length (dropWhile is_space (drop 6 s))" using 1 by simp
  also have "\<dots> \<le> length (drop 6 s)" by (rule length_dropWhile_le)
  also have "\<dots> \<le> length s" by simp
  finally show "(rest, c # cs) \<in> measure length" by (simp add: s_def)
qed

definition dirname :: "string \<Rightarrow> string" where
  "dirname p = (case lastIndexOf p (CHR ''/'') of None \<Rightarrow> [] | Some i \<Rightarrow> take i p)"

definition resolveImport :: "string \<Rightarrow> string \<Rightarrow> string" where
  "resolveImport fromFile importPath =
     (let fromDir = dirname fromFile in
      if startsWith importPath ''./'' then fromDir @ ''/'' @ drop 2 importPath
      else if startsWith importPath ''../'' then dirname fromDir @ ''/'' @ drop 3 importPath
      else importPath)"

definition fileExists :: "SolidityAnalysisResult \<Rightarrow> string \<Rightarrow> bool" where
  "fileExists analysisResult path = list_ex (\<lambda>c. c_filePath c = path) (a_contracts analysisResult)"

text \<open>The import check of one matched import statement: the issues it adds.\<close>

definition import_issues :: "SolidityAnalysisResult \<Rightarrow> string \<Rightarrow> string \<Rightarrow> string list" where
  "import_issues analysisResult filePath importStatement =
     (case match_quoted importStatement of
        None \<Rightarrow> []
      | Some importPath \<Rightarrow>
          if importPath \<noteq> [] \<and> \<not> startsWith importPath ''http'' then
            (if \<not> fileExists analysisResult (resolveImport filePath importPath)
                \<and> \<not> includes_str importPath ''@''
             then [''File '' @ filePath @ '': Import not found: '' @ importPath]
             else [])
          else [])"

definition file_import_issues ::
  "SolidityAnalysisResult \<Rightarrow> string \<times> TransformedFile \<Rightarrow> string list" where
  "file_import_issues analysisResult entry =
     concat (map (import_issues analysisResult (fst entry))
               (match_imports (tf_transformedContent (snd entry))))"

definition inheritance_issues :: "SolidityAnalysisResult \<Rightarrow> SolidityContract \<Rightarrow> string list" where
  "inheritance_issues analysisResult contract =
     concat (map (\<lambda>parentName.
        if find (\<lambda>c. c_name c = parentName) (a_contracts analysisResult) = None
           \<and> \<not> includes_str parentName ''@''
        then [''Contract '' @ c_name contract @ '': Parent contract not found: '' @ parentName]
        else []) (c_inherits contract))"

text \<open>
  \<open>validateCrossFileConsistency\<close>: each flag is cleared exactly when its loop pushes an
  issue; the issue list holds the import issues, then the inheritance issues.
\<close>

definition validateCrossFileConsistency ::
  "SolidityAnalysisResult \<Rightarrow> (string \<times> TransformedFile) list \<Rightarrow> TransformationReport
     \<Rightarrow> TransformationReport" where
  "validateCrossFileConsistency analysisResult transformedFiles report =
     (let importIssues = concat (map (file_import_issues analysisResult) transformedFiles);
          inheritanceIssues =
            concat (map (inheritance_issues analysisResult) (a_contracts analysisResult));
          cc = tr_crossFileConsistency report
      in report \<lparr> tr_crossFileConsistency :=
           \<lparr> cc_checked = True,
              cc_importsValid = (if importIssues = [] then cc_importsValid cc else False),
              cc_inheritanceValid =
                (if inheritanceIssues = [] then cc_inheritanceValid cc else False),
              cc_issues = importIssues @ inheritanceIssues \<rparr> \<rparr>)"

definition generateReportRecommendations :: "TransformationReport \<Rightarrow> string list" where
  "generateReportRecommendations report =
     (let recommendations =
            (if tr_filesModified report = 0
             then [''No transformations applied - review migration plan''] else [])
            @ (if js_less (rs_overallConfidence (tr_summary report)) (nearest_double 7 10)
               then [''Low confidence in transformations - manual review recommended'']
               else [])
            @ (if length (cc_issues (tr_crossFileConsistency report)) > 0
               then [''Fix '' @ show_nat (length (cc_issues (tr_crossFileConsistency report)))
                     @ '' cross-file consistency issues'']
               else [])
            @ (if length (tr_errors report) > 0
               then [''Review '' @ show_nat (length (tr_errors report))
                     @ '' transformation errors'']
               else [])
      in if length recommendations = 0
         then [''Transformations completed successfully - ready for testing'']
         else recommendations)"

text \<open>
  The file loop of \<open>transformRepository\<close>: a file whose transformation throws is counted
  as processed and skipped and gets an entry in \<open>errors\<close>, but no file report.
\<close>

fun transform_loop ::
  "TransformerEnv \<Rightarrow> SolidityAnalysisResult \<Rightarrow> (string \<times> MigrationRecommendation list) list
     \<Rightarrow> TransformationReport \<times> (string \<times> TransformedFile) list
     \<Rightarrow> TransformationReport \<times> (string \<times> TransformedFile) list" where
  "transform_loop env analysisResult [] acc = acc"
| "transform_loop env analysisResult ((filePath, recommendations) # groups)
       (report, transformedFiles) =
     (case transformFile env analysisResult filePath recommendations of
        Inr transformed \<Rightarrow>
          transform_loop env analysisResult groups
            (report
               \<lparr> tr_filesProcessed := tr_filesProcessed report + 1,
                  tr_filesModified :=
                    (if tf_hasChanges transformed then tr_filesModified report + 1
                     else tr_filesModified report),
                  tr_filesSkipped :=
                    (if tf_hasChanges transformed then tr_filesSkipped report
                     else tr_filesSkipped report + 1),
                  tr_totalAppliedChanges :=
                    tr_totalAppliedChanges report + length (tf_appliedChanges transformed),
                  tr_totalSkippedChanges :=
                    tr_totalSkippedChanges report + length (tf_skippedChanges transformed),
                  tr_fileReports := tr_fileReports report @
                    [\<lparr> fr_filePath = filePath,
                       fr_success = True,
                       fr_appliedChangesCount = length (tf_appliedChanges transformed),
                       fr_skippedChangesCount = length (tf_skippedChanges transformed),
                       fr_confidenceScore = tf_confidenceScore transformed,
                       fr_warnings = tf_warnings transformed,
                       fr_diffPreview =
                         generateDiffPreview (tf_originalContent transformed)
                           (tf_transformedContent transformed) \<rparr>] \<rparr>,
             map_set filePath transformed transformedFiles)
      | Inl msg \<Rightarrow>
          transform_loop env analysisResult groups
            (report
               \<lparr> tr_filesProcessed := tr_filesProcessed report + 1,
                  tr_filesSkipped := tr_filesSkipped report + 1,
                  tr_errors := tr_errors report @ [(Some filePath, msg)] \<rparr>,
             transformedFiles))"

definition initial_report :: "string \<Rightarrow> string \<Rightarrow> int \<Rightarrow> TransformationReport" where
  "initial_report fullName isoNow now =
     \<lparr> tr_repositoryName = fullName,
        tr_timestamp = isoNow,
        tr_transformationId = fullName @ ''-'' @ show_int now,
        tr_filesProcessed = 0,
        tr_filesModified = 0,
        tr_filesSkipped = 0,
        tr_totalAppliedChanges = 0,
        tr_totalSkippedChanges = 0,
        tr_fileReports = [],
        tr_crossFileConsistency =
          \<lparr> cc_checked = False, cc_importsValid = True, cc_inheritanceValid = True,
             cc_issues = [] \<rparr>,
        tr_summary = \<lparr> rs_overallConfidence = js_int 0, rs_recommendations = [], rs_nextSteps = [] \<rparr>,
        tr_errors = [] \<rparr>"

text \<open>
  The overall confidence that \<open>transformRepository\<close> computes for the summary: the
  \<open>reduce\<close> adds the scores of all file reports from the left, starting at 0.
\<close>

definition overallConfidence :: "TransformationReport \<Rightarrow> Number" where
  "overallConfidence report =
     (if tr_filesModified report > 0
      then js_div
             (Math_round
                (js_mul
                   (js_div
                      (fold (\<lambda>f sum. js_add sum (fr_confidenceScore f))
                         (tr_fileReports report) (js_int 0))
                      (js_length (tr_fileReports report)))
                   (js_int 100)))
             (js_int 100)
      else js_int 0)"

definition transformRepository ::
  "TransformerEnv \<Rightarrow> string \<Rightarrow> int \<Rightarrow> MigrationPlan \<Rightarrow> SolidityAnalysisResult
     \<Rightarrow> RepositoryTree \<Rightarrow> TransformationReport" where
  "transformRepository env isoNow now plan analysisResult tree =
     (let (report1, transformedFiles) =
            transform_loop env analysisResult (groupRecommendationsByFile plan)
              (initial_report (m_fullName (t_metadata tree)) isoNow now, []);
          report2 = validateCrossFileConsistency analysisResult transformedFiles report1;
          report3 = report2 \<lparr> tr_summary :=
                      (tr_summary report2) \<lparr> rs_overallConfidence := overallConfidence report2 \<rparr> \<rparr>;
          report4 = report3 \<lparr> tr_summary :=
                      (tr_summary report3)
                        \<lparr> rs_recommendations := generateReportRecommendations report3 \<rparr> \<rparr>
      in report4 \<lparr> tr_summary :=
           (tr_summary report4)
             \<lparr> rs_nextSteps :=
                 [''Review transformed code in diffs/'',
                  ''Run test suite to verify functionality'',
                  ''Check cross-file imports and references'',
                  ''Deploy to Monad testnet'',
                  ''Perform load testing for parallelization benefits'',
                  ''Audit critical contracts pre-mainnet''] \<rparr> \<rparr>)"

section \<open>Concrete planner and transformer runs\<close>

text \<open>
  The reading of the claimed overall confidence: the arithmetic mean of the confidence
  scores of the modified files only, rounded to two decimals, and 0 when no file was
  modified.
\<close>

definition modified_reports :: "TransformationReport \<Rightarrow> FileTransformReport list" where
  "modified_reports report = filter (\<lambda>f. 0 < fr_appliedChangesCount f) (tr_fileReports report)"

definition claimed_overallConfidence :: "TransformationReport \<Rightarrow> Number" where
  "claimed_overallConfidence report =
     (if modified_reports report = [] then js_int 0
      else js_div
             (Math_round
                (js_mul
                   (js_div
                      (fold (\<lambda>f sum. js_add sum (fr_confidenceScore f))
                         (modified_reports report) (js_int 0))
                      (js_length (modified_reports report)))
                   (js_int 100)))
             (js_int 100))"

definition demo_rec :: "string \<Rightarrow> string \<Rightarrow> MigrationRecommendation" where
  "demo_rec path contract =
     \<lparr> r_filePath = path, r_contractName = contract, r_changeCategory = GasOptimization,
        r_recommendedChange = ''Pack storage slots'', r_rationale = ''Cheaper writes'',
        r_confidenceLevel = High, r_affectedContracts = None, r_references = None \<rparr>"

definition demo_plan :: "MigrationRecommendation list \<Rightarrow> MigrationPlan" where
  "demo_plan recs =
     \<lparr> p_repositoryName = ''o/r'', p_timestamp = [], p_analysisId = ''o/r-0'',
        p_monadVersion = ''1.0.0'', p_recommendations = recs,
        p_summary = \<lparr> ps_totalFilesAnalyzed = 0, ps_totalContractsAnalyzed = 0,
                      ps_totalRecommendations = length recs, ps_highConfidenceCount = 0,
                      ps_mediumConfidenceCount = 0, ps_lowConfidenceCount = 0 \<rparr>,
        p_assumptions = [], p_limitations = [], p_nextSteps = [] \<rparr>"

definition demo_analysis :: "SolidityContract list \<Rightarrow> SolidityAnalysisResult" where
  "demo_analysis cs =
     \<lparr> a_contracts = cs, a_dependencyGraph = buildDependencyGraph cs,
        a_entryPointContracts = identifyEntryPoints cs (buildDependencyGraph cs),
        a_upgradeableContracts = [],
        a_stats = \<lparr> as_totalContracts = length cs, as_abstractContracts = 0,
                    as_interfaces = 0, as_libraries = 0, as_totalFunctions = 0,
                    as_parseErrors = 0 \<rparr>,
        a_parseErrors = [] \<rparr>"

definition demo_change :: RawChange where
  "demo_change =
     \<lparr> rc_type = ''gas-optimization'', rc_description = ''Packed two fields'',
        rc_originalSnippet = ''uint256 a;'', rc_transformedSnippet = ''uint128 a;'',
        rc_lineRange = None \<rparr>"

text \<open>
  A transformer that answers \<open>{}\<close> for every file; the parsed answer applies one change
  and returns the code \<open>code\<close>. Files whose path is \<open>skipped\<close> get a plain-text
  refusal instead.
\<close>

definition demo_transformer :: "string \<Rightarrow> string \<Rightarrow> string \<Rightarrow> TransformerEnv" where
  "demo_transformer original code skipped =
     \<lparr> te_getFileContent = (\<lambda>p. Some original),
        te_llm = (\<lambda>ctx. if tc_filePath ctx = skipped then Text ''unclear'' else Text ''{}''),
        te_jsonParse = (\<lambda>s. Inr \<lparr> pt_action = Apply, pt_reason = None,
                                    pt_appliedChanges = Some [demo_change],
                                    pt_transformedCode = Some code,
                                    pt_warnings = Some [] \<rparr>) \<rparr>"

text \<open>Two files, one contract each; the transformer changes the first and skips the second.\<close>

definition twoFiles_report :: TransformationReport where
  "twoFiles_report =
     transformRepository (demo_transformer ''contract A {}'' ''contract A {} // packed'' ''B.sol'')
       [] 0
       (demo_plan [demo_rec ''A.sol'' ''A'', demo_rec ''B.sol'' ''B''])
       (demo_analysis [unit_of ''A'' Contract ''A.sol'' [] [], unit_of ''B'' Contract ''B.sol'' [] []])
       (tree_of [sol_file ''A.sol'', sol_file ''B.sol''])"

text \<open>
  Two runs that show the rounding of the scores. In the first, one file has a
  medium-confidence and a low-confidence recommendation and one applied change. In the
  second, a file has five recommendations (high, medium and three times low) and three
  applied changes, and a second file is skipped.
\<close>

definition level_rec :: "string \<Rightarrow> string \<Rightarrow> ConfidenceLevel \<Rightarrow> MigrationRecommendation" where
  "level_rec path contract level = (demo_rec path contract) \<lparr> r_confidenceLevel := level \<rparr>"

definition mixedLevels_report :: TransformationReport where
  "mixedLevels_report =
     transformRepository (demo_transformer ''contract A {}'' ''contract A {} // packed'' [])
       [] 0
       (demo_plan [level_rec ''A.sol'' ''A'' Medium, level_rec ''A.sol'' ''A'' Low])
       (demo_analysis [unit_of ''A'' Contract ''A.sol'' [] []])
       (tree_of [sol_file ''A.sol''])"

definition threeChanges_transformer :: TransformerEnv where
  "threeChanges_transformer =
     \<lparr> te_getFileContent = (\<lambda>p. Some ''contract A {}''),
        te_llm = (\<lambda>ctx. if tc_filePath ctx = ''B.sol'' then Text ''unclear'' else Text ''{}''),
        te_jsonParse = (\<lambda>s. Inr \<lparr> pt_action = Apply, pt_reason = None,
                                    pt_appliedChanges =
                                      Some [demo_change, demo_change, demo_change],
                                    pt_transformedCode = Some ''contract A {} // packed'',
                                    pt_warnings = Some [] \<rparr>) \<rparr>"

definition threeOfFive_report :: TransformationReport where
  "threeOfFive_report =
     transformRepository threeChanges_transformer
       [] 0
       (demo_plan [level_rec ''A.sol'' ''A'' High, level_rec ''A.sol'' ''A'' Medium,
                   level_rec ''A.sol'' ''A'' Low, level_rec ''A.sol'' ''A'' Low,
                   level_rec ''A.sol'' ''A'' Low, demo_rec ''B.sol'' ''B''])
       (demo_analysis [unit_of ''A'' Contract ''A.sol'' [] [], unit_of ''B'' Contract ''B.sol'' [] []])
       (tree_of [sol_file ''A.sol'', sol_file ''B.sol''])"

text \<open>
  Scenario B and two variants of it: the file \<open>contracts/A.sol\<close> of a repository whose
  only contract is \<open>A\<close> keeps an import of \<open>./Missing.sol\<close>, written with double quotes,
  with single quotes, or as a named import.
\<close>

definition missing_doubleQuoted :: string where
  "missing_doubleQuoted =
     ''import '' @ [CHR 0x22] @ ''./Missing.sol'' @ [CHR 0x22] @ '';'' @ [CHR 0x0A] @
     ''contract A {}''"

definition missing_singleQuoted :: string where
  "missing_singleQuoted =
     ''import '' @ [CHR 0x27] @ ''./Missing.sol'' @ [CHR 0x27] @ '';'' @ [CHR 0x0A] @
     ''contract A {}''"

definition missing_named :: string where
  "missing_named =
     ''import {B} from '' @ [CHR 0x22] @ ''./Missing.sol'' @ [CHR 0x22] @ '';'' @ [CHR 0x0A] @
     ''contract A {}''"

definition missing_report :: "string \<Rightarrow> TransformationReport" where
  "missing_report code =
     transformRepository (demo_transformer code code [])
       [] 0
       (demo_plan [demo_rec ''contracts/A.sol'' ''A''])
       (demo_analysis [unit_of ''A'' Contract ''contracts/A.sol'' [''./Missing.sol''] []])
       (tree_of [sol_file ''contracts/A.sol''])"

text \<open>A planner whose model answers with prose and no JSON.\<close>

definition prose_planner :: PlannerEnv where
  "prose_planner =
     \<lparr> pe_llm = (\<lambda>m a. Text ''I could not find anything to recommend.''),
        pe_jsonParse = (\<lambda>s. None) \<rparr>"

text \<open>
  The invariant of the file loop of \<open>transformRepository\<close>: the counter of modified
  files is the number of file reports with an applied change, and a file report without
  an applied change has confidence 0.
\<close>

definition report_inv :: "TransformationReport \<Rightarrow> bool" where
  "report_inv r \<longleftrightarrow>
     tr_filesModified r = length (modified_reports r) \<and>
     (\<forall>f \<in> set (tr_fileReports r). fr_appliedChangesCount f = 0 \<longrightarrow> fr_confidenceScore f = js_int 0)"

section \<open>HTTP server and its caches (server/http.ts)\<close>

text \<open>
  The three process-wide maps of the server. The repository cache stores bare trees; an
  analysis entry and a plan entry carry the \<open>Date.now()\<close> reading of the moment they
  were stored. Every analysis entry is stored with the metadata of its tree.
\<close>

record AnalysisCache =
  an_analysisResult :: SolidityAnalysisResult
  an_repoMetadata :: RepositoryMetadata
  an_timestamp :: int

record PlanCache =
  pc_plan :: MigrationPlan
  pc_timestamp :: int

record ServerState =
  repoCache :: "string \<rightharpoonup> RepositoryTree"
  analysisCache :: "string \<rightharpoonup> AnalysisCache"
  planCache :: "string \<rightharpoonup> PlanCache"

definition CACHE_TTL_MS :: int where
  "CACHE_TTL_MS = 30 * 60 * 1000"

definition MAX_RECOMMENDATIONS :: nat where
  "MAX_RECOMMENDATIONS = 200"

text \<open>
  The collaborators of the handlers: \<open>ingestRepository\<close> (\<open>Inl\<close> the message of the
  exception), the file source the analyzer reads a tree through, the planner's and the
  transformer's.
\<close>

record HttpEnv =
  he_ingest :: "string \<Rightarrow> string + RepositoryTree"
  he_files :: "RepositoryTree \<Rightarrow> FileSource"
  he_planner :: PlannerEnv
  he_transformer :: TransformerEnv

text \<open>
  The readings of the clock one request takes, one per call site: the two expiry tests
  and the two stores of \<open>handleTransformRequest\<close> (the plan handler takes the stores
  only), and the time stamps the planner and the transformer put into their results.
\<close>

record Clock =
  k_analysisCheck :: int
  k_analysisStore :: int
  k_planCheck :: int
  k_planStore :: int
  k_planIso :: string
  k_planNow :: int
  k_reportIso :: string
  k_reportNow :: int

record RequestBody =
  b_repoUrl :: "string option"
  b_repoId :: "string option"

text \<open>A missing field and the empty string are both falsy.\<close>

definition truthy :: "string option \<Rightarrow> bool" where
  "truthy s = (case s of None \<Rightarrow> False | Some v \<Rightarrow> v \<noteq> [])"

datatype 'a Response = Success 'a | Failure nat string

text \<open>
  The regular expression \<open>/github\.com\/([^/]+)\/([^/]+)/\<close>: the leftmost
  \<open>github.com/\<close> that is followed by a non-empty run without a slash, a slash, and
  another non-empty run without a slash. The result is the two runs.
\<close>

definition not_slash :: "char \<Rightarrow> bool" where
  "not_slash c = (c \<noteq> CHR ''/'')"

fun match_github :: "string \<Rightarrow> (string \<times> string) option" where
  "match_github [] = None"
| "match_github (c # cs) =
     (if startsWith (c # cs) ''github.com/'' then
        let r = drop 11 (c # cs);
            owner = takeWhile not_slash r;
            r2 = dropWhile not_slash r
        in if owner \<noteq> [] \<and> r2 \<noteq> [] \<and> takeWhile not_slash (tl r2) \<noteq> []
           then Some (owner, takeWhile not_slash (tl r2))
           else match_github cs
      else match_github cs)"

text \<open>\<open>s.replace(/\.git$/, '')\<close>.\<close>

definition strip_git :: "string \<Rightarrow> string" where
  "strip_git s =
     (if length s \<ge> 4 \<and> drop (length s - 4) s = ''.git'' then take (length s - 4) s else s)"

definition url_cacheKey :: "string \<Rightarrow> string option" where
  "url_cacheKey repoUrl =
     (case match_github repoUrl of
        None \<Rightarrow> None
      | Some (owner, repo) \<Rightarrow> Some (owner @ ''/'' @ strip_git repo))"

text \<open>
  The cache key of the plan and transform handlers: the request's \<open>repoId\<close> when it has
  one, else the key of its URL. \<open>Inl\<close> is the 400 answer.
\<close>

definition request_cacheKey :: "RequestBody \<Rightarrow> string + string" where
  "request_cacheKey body =
     (if \<not> truthy (b_repoUrl body) \<and> \<not> truthy (b_repoId body)
      then Inl ''Missing required field: repoUrl or repoId''
      else if truthy (b_repoId body) then Inr (the (b_repoId body))
      else case url_cacheKey (the (b_repoUrl body)) of
             None \<Rightarrow> Inl ''Invalid GitHub repository URL''
           | Some cacheKey \<Rightarrow>
               if cacheKey = [] then Inl ''Unable to resolve repository identifier''
               else Inr cacheKey)"

text \<open>\<open>analyzeSolidityRepository\<close>: per-file failures are caught inside, so it returns.\<close>

definition analyzeSolidityRepository :: "HttpEnv \<Rightarrow> RepositoryTree \<Rightarrow> SolidityAnalysisResult" where
  "analyzeSolidityRepository env repoTree = analyzeSolidity (he_files env repoTree) repoTree"

text \<open>\<open>buildPreview\<close>: at most ten files and five subdirectories, two levels deep.\<close>

function buildPreview :: "RepositoryDirectory \<Rightarrow> nat \<Rightarrow> nat \<Rightarrow> RepositoryDirectory" where
  "buildPreview dir currentDepth maxDepth =
     (if currentDepth \<ge> maxDepth
      then RepositoryDirectory (d_path dir) (d_name dir) (take 10 (d_files dir)) []
      else RepositoryDirectory (d_path dir) (d_name dir) (take 10 (d_files dir))
             (map (\<lambda>subdir. buildPreview subdir (currentDepth + 1) maxDepth)
                (take 5 (d_subdirectories dir))))"
  by pat_completeness auto
termination
  by (relation "measure (\<lambda>(dir, currentDepth, maxDepth). maxDepth - currentDepth)") auto

record IngestResponse =
  ir_metadata :: "string \<times> string \<times> string"
  ir_stats :: TreeStats
  ir_preview :: RepositoryDirectory

definition handleIngestRequest ::
  "HttpEnv \<Rightarrow> RequestBody \<Rightarrow> ServerState \<Rightarrow> IngestResponse Response \<times> ServerState" where
  "handleIngestRequest env body st =
     (if \<not> truthy (b_repoUrl body) then (Failure 400 ''Missing required field: repoUrl'', st)
      else case he_ingest env (the (b_repoUrl body)) of
             Inl msg \<Rightarrow> (Failure 500 msg, st)
           | Inr tree \<Rightarrow>
               let cacheKey = m_owner (t_metadata tree) @ ''/'' @ m_name (t_metadata tree)
               in (Success \<lparr> ir_metadata = (m_owner (t_metadata tree), m_name (t_metadata tree),
                                            m_fullName (t_metadata tree)),
                             ir_stats = t_stats tree,
                             ir_preview = buildPreview (t_root tree) 0 2 \<rparr>,
                   st \<lparr> repoCache := (repoCache st)(cacheKey \<mapsto> tree) \<rparr>))"

text \<open>
  \<open>handleAnalyzeSolidityRequest\<close>: the tree is taken from the repository cache whenever
  the key is present; the analysis result is returned and not stored.
\<close>

definition handleAnalyzeSolidityRequest ::
  "HttpEnv \<Rightarrow> RequestBody \<Rightarrow> ServerState
     \<Rightarrow> SolidityAnalysisResult Response \<times> ServerState" where
  "handleAnalyzeSolidityRequest env body st =
     (if \<not> truthy (b_repoUrl body) then (Failure 400 ''Missing required field: repoUrl'', st)
      else case url_cacheKey (the (b_repoUrl body)) of
             None \<Rightarrow> (Failure 400 ''Invalid GitHub repository URL'', st)
           | Some cacheKey \<Rightarrow>
               (case repoCache st cacheKey of
                  Some repoTree \<Rightarrow> (Success (analyzeSolidityRepository env repoTree), st)
                | None \<Rightarrow>
                    (case he_ingest env (the (b_repoUrl body)) of
                       Inl msg \<Rightarrow> (Failure 500 msg, st)
                     | Inr repoTree \<Rightarrow>
                         (Success (analyzeSolidityRepository env repoTree),
                          st \<lparr> repoCache := (repoCache st)(cacheKey \<mapsto> repoTree) \<rparr>))))"

text \<open>The truncation step of \<open>handlePlanMigrationRequest\<close>.\<close>

definition truncate_recommendations :: "MigrationPlan \<Rightarrow> MigrationPlan" where
  "truncate_recommendations migrationPlan =
     (if length (p_recommendations migrationPlan) > MAX_RECOMMENDATIONS
      then migrationPlan
             \<lparr> p_recommendations := take MAX_RECOMMENDATIONS (p_recommendations migrationPlan),
                p_limitations := p_limitations migrationPlan @
                  [''Recommendations truncated to first '' @ show_nat MAX_RECOMMENDATIONS
                   @ '' items for response size limits''] \<rparr>
      else migrationPlan)"

text \<open>
  The second half of \<open>handlePlanMigrationRequest\<close>, from the planner call on: plan,
  truncate, store, answer.
\<close>

definition plan_and_store ::
  "HttpEnv \<Rightarrow> Clock \<Rightarrow> string \<Rightarrow> RepositoryMetadata \<Rightarrow> SolidityAnalysisResult \<Rightarrow> ServerState
     \<Rightarrow> MigrationPlan Response \<times> ServerState" where
  "plan_and_store env clock cacheKey repoMetadata analysisResult st =
     (case planMigration (he_planner env) (k_planIso clock) (k_planNow clock)
             repoMetadata analysisResult of
        Inl msg \<Rightarrow> (Failure 500 msg, st)
      | Inr migrationPlan0 \<Rightarrow>
          let migrationPlan = truncate_recommendations migrationPlan0
          in (Success migrationPlan,
              st \<lparr> planCache := (planCache st)
                     (cacheKey \<mapsto> \<lparr> pc_plan = migrationPlan,
                                    pc_timestamp = k_planStore clock \<rparr>) \<rparr>))"

text \<open>
  \<open>handlePlanMigrationRequest\<close>: a cached analysis entry is used whatever its age; the
  plan is computed on every request.
\<close>

definition handlePlanMigrationRequest ::
  "HttpEnv \<Rightarrow> Clock \<Rightarrow> RequestBody \<Rightarrow> ServerState \<Rightarrow> MigrationPlan Response \<times> ServerState" where
  "handlePlanMigrationRequest env clock body st =
     (case request_cacheKey body of
        Inl msg \<Rightarrow> (Failure 400 msg, st)
      | Inr cacheKey \<Rightarrow>
          (case analysisCache st cacheKey of
             Some cached \<Rightarrow>
               plan_and_store env clock cacheKey (an_repoMetadata cached)
                 (an_analysisResult cached) st
           | None \<Rightarrow>
               (case (case repoCache st cacheKey of
                        Some repoTree \<Rightarrow> Inr (repoTree, st)
                      | None \<Rightarrow>
                          if \<not> truthy (b_repoUrl body)
                          then Inl (Failure 400 ''Repository not cached; provide repoUrl to ingest'')
                          else (case he_ingest env (the (b_repoUrl body)) of
                                  Inl msg \<Rightarrow> Inl (Failure 500 msg)
                                | Inr repoTree \<Rightarrow>
                                    Inr (repoTree,
                                         st \<lparr> repoCache := (repoCache st)(cacheKey \<mapsto> repoTree) \<rparr>)))
                of
                  Inl failure \<Rightarrow> (failure, st)
                | Inr (repoTree, st1) \<Rightarrow>
                    let analysisResult = analyzeSolidityRepository env repoTree;
                        repoMetadata = t_metadata repoTree;
                        st2 = st1 \<lparr> analysisCache := (analysisCache st1)
                                 (cacheKey \<mapsto> \<lparr> an_analysisResult = analysisResult,
                                                an_repoMetadata = repoMetadata,
                                                an_timestamp = k_analysisStore clock \<rparr>) \<rparr>
                    in plan_and_store env clock cacheKey repoMetadata analysisResult st2)))"

text \<open>
  The stages of \<open>handleTransformRequest\<close>. Each takes the state and returns the artifact
  it settled on with the state behind it. An entry is expired when the clock reading
  minus its time stamp is greater than \<open>CACHE_TTL_MS\<close>.
\<close>

definition expired :: "int \<Rightarrow> int \<Rightarrow> bool" where
  "expired now timestamp = (now - timestamp > CACHE_TTL_MS)"

definition tree_stage ::
  "HttpEnv \<Rightarrow> RequestBody \<Rightarrow> string \<Rightarrow> ServerState \<Rightarrow> string + (RepositoryTree \<times> ServerState)" where
  "tree_stage env body cacheKey st =
     (case repoCache st cacheKey of
        Some tree \<Rightarrow> Inr (tree, st)
      | None \<Rightarrow>
          let repoUrl = or_else (b_repoUrl body) (''https://github.com/'' @ cacheKey)
          in case he_ingest env repoUrl of
               Inl msg \<Rightarrow> Inl msg
             | Inr tree \<Rightarrow> Inr (tree, st \<lparr> repoCache := (repoCache st)(cacheKey \<mapsto> tree) \<rparr>))"

definition analysis_stage ::
  "HttpEnv \<Rightarrow> Clock \<Rightarrow> string \<Rightarrow> RepositoryTree \<Rightarrow> ServerState \<Rightarrow> AnalysisCache \<times> ServerState" where
  "analysis_stage env clock cacheKey tree st =
     (case analysisCache st cacheKey of
        Some entry \<Rightarrow>
          if expired (k_analysisCheck clock) (an_timestamp entry)
          then let fresh = \<lparr> an_analysisResult = analyzeSolidityRepository env tree,
                             an_repoMetadata = t_metadata tree,
                             an_timestamp = k_analysisStore clock \<rparr>
               in (fresh, st \<lparr> analysisCache := (analysisCache st)(cacheKey \<mapsto> fresh) \<rparr>)
          else (entry, st)
      | None \<Rightarrow>
          let fresh = \<lparr> an_analysisResult = analyzeSolidityRepository env tree,
                        an_repoMetadata = t_metadata tree,
                        an_timestamp = k_analysisStore clock \<rparr>
          in (fresh, st \<lparr> analysisCache := (analysisCache st)(cacheKey \<mapsto> fresh) \<rparr>))"

definition plan_stage ::
  "HttpEnv \<Rightarrow> Clock \<Rightarrow> string \<Rightarrow> AnalysisCache \<Rightarrow> ServerState
     \<Rightarrow> string + (PlanCache \<times> ServerState)" where
  "plan_stage env clock cacheKey analysisEntry st =
     (let compute =
            (case planMigration (he_planner env) (k_planIso clock) (k_planNow clock)
                    (an_repoMetadata analysisEntry) (an_analysisResult analysisEntry) of
               Inl msg \<Rightarrow> Inl msg
             | Inr migrationPlan \<Rightarrow>
                 let fresh = \<lparr> pc_plan = migrationPlan, pc_timestamp = k_planStore clock \<rparr>
                 in Inr (fresh, st \<lparr> planCache := (planCache st)(cacheKey \<mapsto> fresh) \<rparr>))
      in case planCache st cacheKey of
           Some entry \<Rightarrow>
             if expired (k_planCheck clock) (pc_timestamp entry) then compute
             else Inr (entry, st)
         | None \<Rightarrow> compute)"

record TransformResponse =
  rp_report :: TransformationReport
  rp_modifiedFiles :: "string list"
  rp_sampleDiffPreview :: string

definition transform_response :: "TransformationReport \<Rightarrow> TransformResponse" where
  "transform_response report =
     \<lparr> rp_report = report,
        rp_modifiedFiles =
          map fr_filePath (filter (\<lambda>f. fr_appliedChangesCount f > 0) (tr_fileReports report)),
        rp_sampleDiffPreview =
          (case find (\<lambda>f. fr_diffPreview f \<noteq> []) (tr_fileReports report) of
             None \<Rightarrow> [] | Some sampleFile \<Rightarrow> fr_diffPreview sampleFile) \<rparr>"

definition handleTransformRequest ::
  "HttpEnv \<Rightarrow> Clock \<Rightarrow> RequestBody \<Rightarrow> ServerState
     \<Rightarrow> TransformResponse Response \<times> ServerState" where
  "handleTransformRequest env clock body st =
     (case request_cacheKey body of
        Inl msg \<Rightarrow> (Failure 400 msg, st)
      | Inr cacheKey \<Rightarrow>
          (case tree_stage env body cacheKey st of
             Inl msg \<Rightarrow> (Failure 500 msg, st)
           | Inr (tree, st1) \<Rightarrow>
               (case analysis_stage env clock cacheKey tree st1 of
                  (analysisEntry, st2) \<Rightarrow>
                    (case plan_stage env clock cacheKey analysisEntry st2 of
                       Inl msg \<Rightarrow> (Failure 500 msg, st2)
                     | Inr (planEntry, st3) \<Rightarrow>
                         (Success (transform_response
                            (transformRepository (he_transformer env)
                               (k_reportIso clock) (k_reportNow clock)
                               (pc_plan planEntry) (an_analysisResult analysisEntry) tree)),
                          st3)))))"

section \<open>Concrete server runs\<close>

definition empty_state :: ServerState where
  "empty_state = \<lparr> repoCache = Map.empty, analysisCache = Map.empty, planCache = Map.empty \<rparr>"

definition clock_at :: "int \<Rightarrow> Clock" where
  "clock_at t =
     \<lparr> k_analysisCheck = t, k_analysisStore = t, k_planCheck = t, k_planStore = t,
        k_planIso = [], k_planNow = t, k_reportIso = [], k_reportNow = t \<rparr>"

definition url_body :: "string \<Rightarrow> RequestBody" where
  "url_body u = \<lparr> b_repoUrl = Some u, b_repoId = None \<rparr>"

text \<open>A tree of the repository \<open>o/r\<close> whose full name is recorded as \<open>fullName\<close>.\<close>

definition named_tree :: "string \<Rightarrow> RepositoryTree" where
  "named_tree fullName =
     (tree_of [sol_file ''Shop.sol''])
       \<lparr> t_metadata := (t_metadata (tree_of [sol_file ''Shop.sol'']))
            \<lparr> m_fullName := fullName \<rparr> \<rparr>"

text \<open>
  A server environment that ingests every URL as the given tree, reads Scenario A's file
  through the analyzer, and whose planner gets the given list of recommendations back
  from the model.
\<close>

definition demo_http :: "RepositoryTree \<Rightarrow> MigrationRecommendation list \<Rightarrow> HttpEnv" where
  "demo_http tree recs =
     \<lparr> he_ingest = (\<lambda>u. Inr tree),
        he_files = (\<lambda>t. scenarioA_source),
        he_planner = \<lparr> pe_llm = (\<lambda>m a. Text ''[]''), pe_jsonParse = (\<lambda>s. Some recs) \<rparr>,
        he_transformer = demo_transformer ''contract A {}'' ''contract A {} // packed'' [] \<rparr>"

text \<open>The answer of a plan request that must hold a truncated plan.\<close>

definition truncated_answer :: "MigrationPlan Response \<Rightarrow> bool" where
  "truncated_answer response =
     (case response of
        Failure code msg \<Rightarrow> False
      | Success plan \<Rightarrow>
          length (p_recommendations plan) = 200
          \<and> last (p_limitations plan)
              = ''Recommendations truncated to first 200 items for response size limits'')"

text \<open>
  Two plan requests for \<open>o/r\<close>, at clock readings 0 and 1000000: the analysis entry
  keeps the time stamp 0, the plan entry gets the time stamp 1000000.
\<close>

definition after_two_plans :: ServerState where
  "after_two_plans =
     snd (handlePlanMigrationRequest (demo_http (named_tree ''o/r'') [demo_rec ''Shop.sol'' ''Sale''])
            (clock_at 1000000) (url_body ''https://github.com/o/r'')
            (snd (handlePlanMigrationRequest
                    (demo_http (named_tree ''o/r'') [demo_rec ''Shop.sol'' ''Sale''])
                    (clock_at 0) (url_body ''https://github.com/o/r'') empty_state)))"

text \<open>A transform request for \<open>o/r\<close> at the clock reading 2000000 behind them.\<close>

definition after_late_transform :: ServerState where
  "after_late_transform =
     snd (handleTransformRequest (demo_http (named_tree ''o/r'') [demo_rec ''Shop.sol'' ''Sale''])
            (clock_at 2000000) (url_body ''https://github.com/o/r'') after_two_plans)"



text \<open>A recommendation with the shortest possible texts, to build long lists from.\<close>

definition tiny_rec :: MigrationRecommendation where
  "tiny_rec =
     \<lparr> r_filePath = ''f'', r_contractName = [], r_changeCategory = Performance,
        r_recommendedChange = [], r_rationale = [], r_confidenceLevel = Medium,
        r_affectedContracts = None, r_references = None \<rparr>"

text \<open>The analysis entry \<open>handleTransformRequest\<close> stores when it recomputes the analysis.\<close>

definition fresh_analysis :: "HttpEnv \<Rightarrow> Clock \<Rightarrow> RepositoryTree \<Rightarrow> AnalysisCache" where
  "fresh_analysis env clock tree =
     \<lparr> an_analysisResult = analyzeSolidityRepository env tree,
        an_repoMetadata = t_metadata tree,
        an_timestamp = k_analysisStore clock \<rparr>"



section \<open>Requests that overlap in time\<close>

text \<open>
  A handler is an \<open>async\<close> function: it runs without interruption up to an \<open>await\<close>,
  where it has already called the collaborator, and is resumed when the collaborator's
  promise settles; other handlers run in between. \<open>handleTransformRequest\<close> awaits at
  four places, so a request in flight is suspended in one of four calls.
\<close>

datatype Pending =
  AwaitIngest string string
  | AwaitAnalysis string RepositoryTree
  | AwaitPlan string RepositoryTree AnalysisCache
  | AwaitTransform RepositoryTree AnalysisCache PlanCache

datatype Progress = Replied "TransformResponse Response" | Suspended Pending

text \<open>The collaborator call a suspended request has made.\<close>

datatype Call = IngestCall string | AnalyzeCall RepositoryTree
  | PlanCall RepositoryMetadata SolidityAnalysisResult
  | TransformCall MigrationPlan SolidityAnalysisResult RepositoryTree

definition call_of :: "Pending \<Rightarrow> Call" where
  "call_of pending =
     (case pending of
        AwaitIngest cacheKey repoUrl \<Rightarrow> IngestCall repoUrl
      | AwaitAnalysis cacheKey tree \<Rightarrow> AnalyzeCall tree
      | AwaitPlan cacheKey tree entry \<Rightarrow>
          PlanCall (an_repoMetadata entry) (an_analysisResult entry)
      | AwaitTransform tree entry planEntry \<Rightarrow>
          TransformCall (pc_plan planEntry) (an_analysisResult entry) tree)"

text \<open>
  The uninterrupted pieces of \<open>handleTransformRequest\<close>, from the last one to the
  first: what the handler does once it holds the plan, the analysis, the tree, and from
  its start. No piece writes to a cache between a miss and the call it makes.
\<close>

definition from_plan ::
  "RepositoryTree \<Rightarrow> AnalysisCache \<Rightarrow> PlanCache \<Rightarrow> ServerState \<Rightarrow> Progress \<times> ServerState" where
  "from_plan tree analysisEntry planEntry st =
     (Suspended (AwaitTransform tree analysisEntry planEntry), st)"

definition from_analysis ::
  "Clock \<Rightarrow> string \<Rightarrow> RepositoryTree \<Rightarrow> AnalysisCache \<Rightarrow> ServerState
     \<Rightarrow> Progress \<times> ServerState" where
  "from_analysis clock cacheKey tree analysisEntry st =
     (case planCache st cacheKey of
        Some entry \<Rightarrow>
          if expired (k_planCheck clock) (pc_timestamp entry)
          then (Suspended (AwaitPlan cacheKey tree analysisEntry), st)
          else from_plan tree analysisEntry entry st
      | None \<Rightarrow> (Suspended (AwaitPlan cacheKey tree analysisEntry), st))"

definition from_tree ::
  "Clock \<Rightarrow> string \<Rightarrow> RepositoryTree \<Rightarrow> ServerState \<Rightarrow> Progress \<times> ServerState" where
  "from_tree clock cacheKey tree st =
     (case analysisCache st cacheKey of
        Some entry \<Rightarrow>
          if expired (k_analysisCheck clock) (an_timestamp entry)
          then (Suspended (AwaitAnalysis cacheKey tree), st)
          else from_analysis clock cacheKey tree entry st
      | None \<Rightarrow> (Suspended (AwaitAnalysis cacheKey tree), st))"

definition ingest_url :: "string \<Rightarrow> RequestBody \<Rightarrow> string" where
  "ingest_url cacheKey body = or_else (b_repoUrl body) (''https://github.com/'' @ cacheKey)"

definition arrive :: "Clock \<Rightarrow> RequestBody \<Rightarrow> ServerState \<Rightarrow> Progress \<times> ServerState" where
  "arrive clock body st =
     (case request_cacheKey body of
        Inl msg \<Rightarrow> (Replied (Failure 400 msg), st)
      | Inr cacheKey \<Rightarrow>
          (case repoCache st cacheKey of
             Some tree \<Rightarrow> from_tree clock cacheKey tree st
           | None \<Rightarrow>
               (Suspended (AwaitIngest cacheKey (ingest_url cacheKey body)), st)))"

text \<open>The piece that runs when the awaited promise settles.\<close>

definition settle ::
  "HttpEnv \<Rightarrow> Clock \<Rightarrow> Pending \<Rightarrow> ServerState \<Rightarrow> Progress \<times> ServerState" where
  "settle env clock pending st =
     (case pending of
        AwaitIngest cacheKey repoUrl \<Rightarrow>
          (case he_ingest env repoUrl of
             Inl msg \<Rightarrow> (Replied (Failure 500 msg), st)
           | Inr tree \<Rightarrow>
               from_tree clock cacheKey tree
                 (st \<lparr> repoCache := (repoCache st)(cacheKey \<mapsto> tree) \<rparr>))
      | AwaitAnalysis cacheKey tree \<Rightarrow>
          (let fresh = \<lparr> an_analysisResult = analyzeSolidityRepository env tree,
                         an_repoMetadata = t_metadata tree,
                         an_timestamp = k_analysisStore clock \<rparr>
           in from_analysis clock cacheKey tree fresh
                (st \<lparr> analysisCache := (analysisCache st)(cacheKey \<mapsto> fresh) \<rparr>))
      | AwaitPlan cacheKey tree analysisEntry \<Rightarrow>
          (case planMigration (he_planner env) (k_planIso clock) (k_planNow clock)
                  (an_repoMetadata analysisEntry) (an_analysisResult analysisEntry) of
             Inl msg \<Rightarrow> (Replied (Failure 500 msg), st)
           | Inr migrationPlan \<Rightarrow>
               (let fresh = \<lparr> pc_plan = migrationPlan, pc_timestamp = k_planStore clock \<rparr>
                in from_plan tree analysisEntry fresh
                     (st \<lparr> planCache := (planCache st)(cacheKey \<mapsto> fresh) \<rparr>)))
      | AwaitTransform tree analysisEntry planEntry \<Rightarrow>
          (Replied (Success (transform_response
             (transformRepository (he_transformer env)
                (k_reportIso clock) (k_reportNow clock)
                (pc_plan planEntry) (an_analysisResult analysisEntry) tree))), st))"

text \<open>
  The server with requests in flight: the caches, the suspended requests (by request
  number, each with its clock readings), the collaborator calls made so far and the
  answers sent so far, both in order.
\<close>

record World =
  w_state :: ServerState
  w_pending :: "(nat \<times> Clock \<times> Pending) list"
  w_calls :: "Call list"
  w_replies :: "(nat \<times> TransformResponse Response) list"

datatype Event = Arrive nat Clock RequestBody | Settle nat

definition world_of :: "ServerState \<Rightarrow> World" where
  "world_of st = \<lparr> w_state = st, w_pending = [], w_calls = [], w_replies = [] \<rparr>"

definition record_progress :: "nat \<Rightarrow> Clock \<Rightarrow> Progress \<times> ServerState \<Rightarrow> World \<Rightarrow> World" where
  "record_progress rid clock outcome w =
     (case fst outcome of
        Replied response \<Rightarrow>
          w \<lparr> w_state := snd outcome, w_replies := w_replies w @ [(rid, response)] \<rparr>
      | Suspended pending \<Rightarrow>
          w \<lparr> w_state := snd outcome,
              w_pending := w_pending w @ [(rid, clock, pending)],
              w_calls := w_calls w @ [call_of pending] \<rparr>)"

definition step :: "HttpEnv \<Rightarrow> Event \<Rightarrow> World \<Rightarrow> World" where
  "step env event w =
     (case event of
        Arrive rid clock body \<Rightarrow> record_progress rid clock (arrive clock body (w_state w)) w
      | Settle rid \<Rightarrow>
          (case find (\<lambda>entry. fst entry = rid) (w_pending w) of
             None \<Rightarrow> w
           | Some (r, clock, pending) \<Rightarrow>
               record_progress rid clock (settle env clock pending (w_state w))
                 (w \<lparr> w_pending := filter (\<lambda>entry. fst entry \<noteq> rid) (w_pending w) \<rparr>)))"

definition run :: "HttpEnv \<Rightarrow> Event list \<Rightarrow> World \<Rightarrow> World" where
  "run env events w = fold (step env) events w"

text \<open>The kind of a call, and the kinds of the calls a run made.\<close>

datatype Stage = TreeStage | AnalysisStage | PlanStage | TransformStage

definition stage_of :: "Call \<Rightarrow> Stage" where
  "stage_of call =
     (case call of
        IngestCall u \<Rightarrow> TreeStage
      | AnalyzeCall t \<Rightarrow> AnalysisStage
      | PlanCall m a \<Rightarrow> PlanStage
      | TransformCall p a t \<Rightarrow> TransformStage)"

text \<open>
  Two requests for \<open>o/r\<close> arrive on the empty server before either is resumed, and are
  then resumed in turns; and the same two requests one behind the other.
\<close>

definition overlapping_run :: World where
  "overlapping_run =
     run (demo_http (named_tree ''o/r'') [demo_rec ''Shop.sol'' ''Sale''])
       [Arrive 1 (clock_at 0) (url_body ''https://github.com/o/r''),
        Arrive 2 (clock_at 0) (url_body ''https://github.com/o/r''),
        Settle 1, Settle 2, Settle 1, Settle 2, Settle 1, Settle 2, Settle 1, Settle 2]
       (world_of empty_state)"

definition consecutive_run :: World where
  "consecutive_run =
     run (demo_http (named_tree ''o/r'') [demo_rec ''Shop.sol'' ''Sale''])
       [Arrive 1 (clock_at 0) (url_body ''https://github.com/o/r''),
        Settle 1, Settle 1, Settle 1, Settle 1,
        Arrive 2 (clock_at 0) (url_body ''https://github.com/o/r''),
        Settle 2, Settle 2, Settle 2, Settle 2]
       (world_of empty_state)"

text \<open>The arrivals of a list of requests, each with its number and clock readings.\<close>

definition arrivals :: "(nat \<times> Clock \<times> RequestBody) list \<Rightarrow> Event list" where
  "arrivals requests = map (\<lambda>(rid, clock, body). Arrive rid clock body) requests"

text \<open>
  One request followed alone: \<open>resume\<close> settles the call it is suspended in, if any;
  \<open>follows\<close> relates a world in which only request \<open>rid\<close> has been seen to the progress
  of that request.
\<close>

definition resume :: "HttpEnv \<Rightarrow> Clock \<Rightarrow> Progress \<times> ServerState \<Rightarrow> Progress \<times> ServerState" where
  "resume env clock outcome =
     (case fst outcome of
        Replied response \<Rightarrow> outcome
      | Suspended pending \<Rightarrow> settle env clock pending (snd outcome))"

definition follows :: "nat \<Rightarrow> Clock \<Rightarrow> World \<Rightarrow> Progress \<times> ServerState \<Rightarrow> bool" where
  "follows rid clock w outcome =
     (w_state w = snd outcome \<and>
      (case fst outcome of
         Replied response \<Rightarrow> w_pending w = [] \<and> w_replies w = [(rid, response)]
       | Suspended pending \<Rightarrow> w_pending w = [(rid, clock, pending)] \<and> w_replies w = []))"

section \<open>Properties of the numbers\<close>

text \<open>
  \<open>round_even\<close> is within one half of the ratio, and \<open>binade\<close> is the exponent of the
  power of two at or below it.
\<close>

lemma round_even_nearest:
  assumes "0 < q"
  shows "\<bar>real_of_int (round_even p q) - real_of_int p / real_of_int q\<bar> \<le> 1 / 2"
proof -
  define n where "n = p div q"
  define r where "r = p mod q"
  have r: "0 \<le> r" "r < q" using assms by (simp_all add: r_def)
  have "p = q * n + r" by (simp add: n_def r_def)
  then have "real_of_int p = real_of_int q * real_of_int n + real_of_int r"
    by (metis of_int_add of_int_mult)
  then have e: "real_of_int p / real_of_int q = real_of_int n + real_of_int r / real_of_int q"
    using assms by (simp add: field_simps)
  have f: "0 \<le> real_of_int r / real_of_int q" "real_of_int r / real_of_int q < 1"
    using r assms by simp_all
  consider "2 * r < q" | "q < 2 * r" | "2 * r = q" by linarith
  then show ?thesis
  proof cases
    case 1
    then have "real_of_int r / real_of_int q < 1 / 2" using assms by (simp add: field_simps)
    with 1 f show ?thesis unfolding e round_even_def Let_def n_def [symmetric] r_def [symmetric]
      by simp
  next
    case 2
    then have "1 / 2 < real_of_int r / real_of_int q" using assms by (simp add: field_simps)
    with 2 f show ?thesis unfolding e round_even_def Let_def n_def [symmetric] r_def [symmetric]
      by simp
  next
    case 3
    then have h: "real_of_int r / real_of_int q = 1 / 2" using assms by (simp add: field_simps)
    from 3 have c: "\<not> 2 * r < q" "\<not> q < 2 * r" by simp_all
    show ?thesis unfolding e h round_even_def Let_def n_def [symmetric] r_def [symmetric]
      using c by simp
  qed
qed

lemma binade_up_bounds:
  "0 < q \<Longrightarrow> q \<le> p \<Longrightarrow>
     0 \<le> binade_up p q \<and> 2 ^ nat (binade_up p q) * q \<le> p \<and> p < 2 * 2 ^ nat (binade_up p q) * q"
proof (induction p q rule: binade_up.induct)
  case (1 p q)
  show ?case
  proof (cases "2 * q \<le> p")
    case True
    with 1 have ih: "0 \<le> binade_up p (2 * q)"
      "2 ^ nat (binade_up p (2 * q)) * (2 * q) \<le> p"
      "p < 2 * 2 ^ nat (binade_up p (2 * q)) * (2 * q)"
      by simp_all
    have b: "binade_up p q = binade_up p (2 * q) + 1"
      using True 1(2) by (subst binade_up.simps) simp
    have n: "nat (binade_up p (2 * q) + 1) = Suc (nat (binade_up p (2 * q)))"
      using ih(1) by (simp add: nat_add_distrib)
    show ?thesis unfolding b n using ih by (simp add: mult.assoc mult.left_commute)
  next
    case False
    then have "binade_up p q = 0" by (subst binade_up.simps) simp
    with False 1 show ?thesis by simp
  qed
qed

lemma binade_down_bounds:
  "0 < p \<Longrightarrow> p < q \<Longrightarrow>
     binade_down p q < 0 \<and> q \<le> 2 ^ nat (- binade_down p q) * p
       \<and> 2 ^ nat (- binade_down p q) * p < 2 * q"
proof (induction p q rule: binade_down.induct)
  case (1 p q)
  have b: "binade_down p q = binade_down (2 * p) q - 1"
    using 1(2,3) by (subst binade_down.simps) simp
  show ?case
  proof (cases "2 * p < q")
    case True
    with 1 have ih: "binade_down (2 * p) q < 0"
      "q \<le> 2 ^ nat (- binade_down (2 * p) q) * (2 * p)"
      "2 ^ nat (- binade_down (2 * p) q) * (2 * p) < 2 * q"
      by simp_all
    have n: "nat (- (binade_down (2 * p) q - 1)) = Suc (nat (- binade_down (2 * p) q))"
      using ih(1) by (simp add: nat_add_distrib)
    show ?thesis unfolding b n using ih by (simp add: mult.assoc mult.left_commute)
  next
    case False
    then have z: "binade_down (2 * p) q = 0" by (subst binade_down.simps) simp
    show ?thesis unfolding b z using False 1(2,3) by simp
  qed
qed

text \<open>
  The value of \<open>nearest_double p q\<close> is a multiple of the spacing of the binary64 values
  around \<open>p / q\<close> and lies within half that spacing of \<open>p / q\<close>.
\<close>

lemma pow2_pos: "0 < pow2 e"
  by (simp add: pow2_def)

lemma pow2_Suc: "pow2 (e + 1) = 2 * pow2 e"
proof (cases "0 \<le> e")
  case True
  then have "nat (e + 1) = Suc (nat e)" by (simp add: nat_add_distrib)
  with True show ?thesis by (simp add: pow2_def)
next
  case False
  then have "nat (- e) = Suc (nat (- (e + 1)))" by simp
  with False show ?thesis by (simp add: pow2_def)
qed

lemma real_of_Number: "real_of (Number m t) = of_int m * pow2 t"
  by (simp add: real_of_def numerator_def denominator_def pow2_def)

lemma binade_bounds:
  assumes "0 < p" "0 < q"
  shows "pow2 (binade p q) \<le> of_int p / of_int q"
    and "of_int p / of_int q < pow2 (binade p q + 1)"
proof -
  have "pow2 (binade p q) * of_int q \<le> of_int p \<and> of_int p < 2 * pow2 (binade p q) * of_int q"
  proof (cases "q \<le> p")
    case True
    from binade_up_bounds [OF assms(2) True]
    have b: "0 \<le> binade_up p q" "2 ^ nat (binade_up p q) * q \<le> p"
      "p < 2 * 2 ^ nat (binade_up p q) * q" by simp_all
    have "real_of_int (2 ^ nat (binade_up p q) * q) \<le> real_of_int p"
      "real_of_int p < real_of_int (2 * 2 ^ nat (binade_up p q) * q)"
      using b(2,3) by (simp_all only: of_int_le_iff of_int_less_iff)
    then show ?thesis using True b(1) by (simp add: binade_def pow2_def)
  next
    case False
    then have lt: "p < q" by simp
    from binade_down_bounds [OF assms(1) lt]
    have b: "binade_down p q < 0" "q \<le> 2 ^ nat (- binade_down p q) * p"
      "2 ^ nat (- binade_down p q) * p < 2 * q" by simp_all
    have "real_of_int q \<le> real_of_int (2 ^ nat (- binade_down p q) * p)"
      "real_of_int (2 ^ nat (- binade_down p q) * p) < real_of_int (2 * q)"
      using b(2,3) by (simp_all only: of_int_le_iff of_int_less_iff)
    then show ?thesis using False b(1) by (simp add: binade_def pow2_def field_simps)
  qed
  then show "pow2 (binade p q) \<le> of_int p / of_int q"
    and "of_int p / of_int q < pow2 (binade p q + 1)"
    using assms(2) pow2_Suc [of "binade p q"] by (simp_all add: field_simps)
qed

lemma scaled_round:
  assumes "0 < q"
  shows "\<bar>real_of_int (if 0 \<le> s then round_even p (q * 2 ^ nat s)
                       else round_even (p * 2 ^ nat (- s)) q)
          - of_int p / of_int q / pow2 s\<bar> \<le> 1 / 2"
proof (cases "0 \<le> s")
  case True
  have "0 < q * 2 ^ nat s" using assms by simp
  from round_even_nearest [OF this, of p] True show ?thesis
    by (simp add: pow2_def)
next
  case False
  from round_even_nearest [OF assms, of "p * 2 ^ nat (- s)"] False show ?thesis
    by (simp add: pow2_def)
qed

lemma nearest_double_value:
  assumes "0 < p" "0 < q"
  shows "real_of (nearest_double p q) =
           of_int (if 0 \<le> max (binade p q) (- 1022) - 52
                   then round_even p (q * 2 ^ nat (max (binade p q) (- 1022) - 52))
                   else round_even (p * 2 ^ nat (- (max (binade p q) (- 1022) - 52))) q)
           * pow2 (max (binade p q) (- 1022) - 52)"
proof -
  define s where "s = max (binade p q) (- 1022) - 52"
  define n where "n = (if 0 \<le> s then round_even p (q * 2 ^ nat s)
                       else round_even (p * 2 ^ nat (- s)) q)"
  have "nearest_double p q = (if n = 2 ^ 53 then Number (2 ^ 52) (s + 1) else Number n s)"
    using assms(1) unfolding n_def s_def by (simp add: nearest_double_def Let_def)
  then have "real_of (nearest_double p q) = of_int n * pow2 s"
    by (simp add: real_of_Number pow2_Suc)
  then show ?thesis unfolding n_def s_def .
qed

lemma nearest_double_error:
  assumes "0 < p" "0 < q"
  shows "\<bar>real_of (nearest_double p q) - of_int p / of_int q\<bar>
           \<le> pow2 (max (binade p q) (- 1022) - 52) / 2"
proof -
  define s where "s = max (binade p q) (- 1022) - 52"
  define n where "n = (if 0 \<le> s then round_even p (q * 2 ^ nat s)
                       else round_even (p * 2 ^ nat (- s)) q)"
  have v: "real_of (nearest_double p q) = of_int n * pow2 s"
    unfolding n_def s_def by (rule nearest_double_value [OF assms])
  have "\<bar>real_of_int n - of_int p / of_int q / pow2 s\<bar> \<le> 1 / 2"
    unfolding n_def by (rule scaled_round [OF assms(2)])
  then have "\<bar>real_of_int n - of_int p / of_int q / pow2 s\<bar> * pow2 s \<le> 1 / 2 * pow2 s"
    using pow2_pos [of s] by (simp only: mult_le_cancel_right_pos)
  moreover have "\<bar>real_of_int n - of_int p / of_int q / pow2 s\<bar> * pow2 s
      = \<bar>real_of_int n * pow2 s - of_int p / of_int q\<bar>"
  proof -
    have "\<bar>real_of_int n - of_int p / of_int q / pow2 s\<bar> * pow2 s
        = \<bar>(real_of_int n - of_int p / of_int q / pow2 s) * pow2 s\<bar>"
      using pow2_pos [of s] by (simp add: abs_mult)
    also have "(real_of_int n - of_int p / of_int q / pow2 s) * pow2 s
        = real_of_int n * pow2 s - of_int p / of_int q"
      using pow2_pos [of s] by (simp add: field_simps)
    finally show ?thesis .
  qed
  ultimately show ?thesis unfolding v s_def [symmetric] by simp
qed

text \<open>
  \<open>nearest_double\<close> returns the normal form: a significand of 53 bits from
  \<open>2 ^ - 1022\<close> on, and the exponent \<open>- 1074\<close> below.
\<close>

lemma pow2_powi: "pow2 e = 2 powi e"
  by (simp add: pow2_def power_int_def power_one_over)

lemma pow2_add: "pow2 (a + b) = pow2 a * pow2 b"
  by (simp add: pow2_powi power_int_add)

lemma pow2_numeral: "pow2 52 = 2 ^ 52" "pow2 53 = 2 ^ 53"
  by (simp_all add: pow2_def)

lemma nearest_double_normal:
  assumes "0 < p" "0 < q" "- 1022 \<le> binade p q"
  shows "2 ^ 52 \<le> significand (nearest_double p q)"
    and "significand (nearest_double p q) < 2 ^ 53"
    and "exponent (nearest_double p q) \<in> {binade p q - 52, binade p q - 51}"
proof -
  define s where "s = binade p q - 52"
  define n where "n = (if 0 \<le> s then round_even p (q * 2 ^ nat s)
                       else round_even (p * 2 ^ nat (- s)) q)"
  define y where "y = real_of_int p / real_of_int q / pow2 s"
  have m: "max (binade p q) (- 1022) - 52 = s" using assms(3) by (simp add: s_def)
  have r: "nearest_double p q = (if n = 2 ^ 53 then Number (2 ^ 52) (s + 1) else Number n s)"
    using assms(1) unfolding n_def by (simp add: nearest_double_def Let_def m)
  have "binade p q = s + 52" "binade p q + 1 = s + 53" by (simp_all add: s_def)
  then have e: "pow2 (binade p q) = pow2 s * pow2 52" "pow2 (binade p q + 1) = pow2 s * pow2 53"
    by (simp_all only: pow2_add)
  have "pow2 s * pow2 52 \<le> of_int p / of_int q" "of_int p / of_int q < pow2 s * pow2 53"
    using binade_bounds [OF assms(1,2)] unfolding e by simp_all
  then have "pow2 52 \<le> real_of_int p / real_of_int q / pow2 s"
    "real_of_int p / real_of_int q / pow2 s < pow2 53"
    by (simp_all only: pos_le_divide_eq [OF pow2_pos] pos_divide_less_eq [OF pow2_pos]
          mult.commute)
  then have y: "2 ^ 52 \<le> y" "y < 2 ^ 53"
    by (simp_all add: y_def pow2_numeral)
  have "\<bar>real_of_int n - y\<bar> \<le> 1 / 2"
    unfolding n_def y_def by (rule scaled_round [OF assms(2)])
  with y have "2 ^ 52 - 1 < real_of_int n" "real_of_int n < 2 ^ 53 + 1" by linarith+
  then have "real_of_int (2 ^ 52 - 1) < real_of_int n" "real_of_int n < real_of_int (2 ^ 53 + 1)"
    by simp_all
  then have n: "2 ^ 52 - 1 < n" "n < 2 ^ 53 + 1"
    by (simp_all only: of_int_less_iff)
  show "2 ^ 52 \<le> significand (nearest_double p q)"
    and "significand (nearest_double p q) < 2 ^ 53"
    and "exponent (nearest_double p q) \<in> {binade p q - 52, binade p q - 51}"
    using n unfolding r by (simp_all add: s_def)
qed

lemma nearest_double_subnormal:
  assumes "0 < p" "0 < q" "binade p q < - 1022"
  shows "0 \<le> significand (nearest_double p q)"
    and "significand (nearest_double p q) \<le> 2 ^ 52"
    and "exponent (nearest_double p q) = - 1074"
proof -
  define n where "n = round_even (p * 2 ^ nat 1074) q"
  define y where "y = real_of_int p / real_of_int q / pow2 (- 1074)"
  have m: "max (binade p q) (- 1022) - 52 = - 1074" using assms(3) by simp
  have r: "nearest_double p q = (if n = 2 ^ 53 then Number (2 ^ 52) (- 1073) else Number n (- 1074))"
    using assms(1) unfolding n_def by (simp add: nearest_double_def Let_def m)
  have "binade p q + 1 \<le> - 1022" using assms(3) by simp
  then obtain k where k: "binade p q + 1 + int k = - 1022"
    by (metis add_diff_cancel_left' diff_ge_0_iff_ge nonneg_int_cases diff_add_cancel)
  have "pow2 (binade p q + 1) \<le> pow2 (- 1022)"
  proof -
    have "pow2 (- 1022) = pow2 (binade p q + 1) * pow2 (int k)"
      using pow2_add [of "binade p q + 1" "int k"] k by simp
    moreover have "1 \<le> pow2 (int k)" by (simp add: pow2_def)
    ultimately show ?thesis using pow2_pos [of "binade p q + 1"] by simp
  qed
  moreover have "pow2 (- 1022) = pow2 (- 1074) * pow2 52"
    using pow2_add [of "- 1074" 52] by simp
  ultimately have "of_int p / of_int q < pow2 (- 1074) * pow2 52"
    using binade_bounds(2) [OF assms(1,2)] by simp
  then have "real_of_int p / real_of_int q / pow2 (- 1074) < pow2 52"
    by (simp only: pos_divide_less_eq [OF pow2_pos] mult.commute)
  moreover have "0 < real_of_int p / real_of_int q / pow2 (- 1074)"
    using assms pow2_pos [of "- 1074"] by simp
  ultimately have y: "0 < y" "y < 2 ^ 52"
    by (simp_all add: y_def pow2_numeral)
  have "\<bar>real_of_int n - y\<bar> \<le> 1 / 2"
    using scaled_round [OF assms(2), of "- 1074" p] unfolding n_def y_def by simp
  with y have "- 1 < real_of_int n" "real_of_int n < 2 ^ 52 + 1" by linarith+
  then have "real_of_int (- 1) < real_of_int n" "real_of_int n < real_of_int (2 ^ 52 + 1)"
    by simp_all
  then have n: "- 1 < n" "n < 2 ^ 52 + 1"
    by (simp_all only: of_int_less_iff)
  show "0 \<le> significand (nearest_double p q)"
    and "significand (nearest_double p q) \<le> 2 ^ 52"
    and "exponent (nearest_double p q) = - 1074"
    using n unfolding r by simp_all
qed

text \<open>
  The operators round the exact sum, product and quotient, \<open>js_less\<close> compares the
  values, and \<open>Math_round\<close> takes the floor of the value plus one half.
\<close>

lemma denominator_pos: "0 < denominator x"
  by (simp add: denominator_def)

lemma js_add_exact:
  "real_of a + real_of b =
     of_int (numerator a * denominator b + numerator b * denominator a)
       / of_int (denominator a * denominator b)"
  using denominator_pos [of a] denominator_pos [of b]
  by (simp add: real_of_def field_simps)

lemma js_mul_exact:
  "real_of a * real_of b =
     of_int (numerator a * numerator b) / of_int (denominator a * denominator b)"
  by (simp add: real_of_def)

lemma js_div_exact:
  "real_of a / real_of b =
     of_int (numerator a * denominator b) / of_int (denominator a * numerator b)"
  using denominator_pos [of a] denominator_pos [of b]
  by (simp add: real_of_def)

lemma js_less_exact: "js_less a b \<longleftrightarrow> real_of a < real_of b"
proof -
  have "real_of a < real_of b \<longleftrightarrow>
      real_of_int (numerator a * denominator b) < real_of_int (numerator b * denominator a)"
    using denominator_pos [of a] denominator_pos [of b]
    by (simp add: real_of_def field_simps)
  then show ?thesis unfolding js_less_def by (simp only: of_int_less_iff)
qed

lemma Math_round_exact:
  "(2 * numerator x + denominator x) div (2 * denominator x) = \<lfloor>real_of x + 1 / 2\<rfloor>"
proof -
  have "real_of x + 1 / 2 =
      real_of_int (2 * numerator x + denominator x) / real_of_int (2 * denominator x)"
    using denominator_pos [of x] by (simp add: real_of_def field_simps)
  then show ?thesis by (simp only: floor_divide_of_int_eq)
qed

text \<open>
  Some values: \<open>0.9\<close>, \<open>0.6 + 0.3\<close> (the number below \<open>0.9\<close>), \<open>0.29 / 2 * 100\<close>
  (the number \<open>14.499999999999998\<close>) and \<open>100\<close>.
\<close>

lemma nearest_double_examples:
  "nearest_double 9 10 = Number 8106479329266893 (- 53)"
  "js_add (nearest_double 6 10) (nearest_double 3 10) = Number 8106479329266892 (- 53)"
  "js_mul (js_div (nearest_double 29 100) (js_int 2)) (js_int 100)
     = Number 8162774324609023 (- 49)"
  "js_int 100 = Number 7036874417766400 (- 46)"
  by code_simp+

section \<open>Properties of the dependency graph\<close>

lemma edges_add_targets:
  "g_edges (add_targets s ty ts g) =
     g_edges g @ map (\<lambda>t. \<lparr> e_from = s, e_to = t, e_type = ty \<rparr>) ts"
  by (induction ts arbitrary: g) auto

lemma edges_add_contract: "g_edges (add_contract c g) = g_edges g @ contract_edges c"
  by (simp add: add_contract_def edges_add_targets contract_edges_def)

lemma edges_loop:
  "g_edges (buildDependencyGraph_loop cs g) = g_edges g @ concat (map contract_edges cs)"
  by (induction cs arbitrary: g) (auto simp: edges_add_contract)

lemma edges_build: "g_edges (buildDependencyGraph cs) = concat (map contract_edges cs)"
  by (simp add: buildDependencyGraph_def edges_loop)

lemma mem_contract_edges:
  "e \<in> set (contract_edges c) \<longleftrightarrow>
     e_from e = c_name c \<and>
     (e_type e = Import \<and> e_to e \<in> set (c_imports c) \<or>
      e_type e = Inheritance \<and> e_to e \<in> set (c_inherits c))"
  by (cases e) (auto simp: contract_edges_def)

lemma distinct_contract_edges:
  "distinct (c_imports c) \<Longrightarrow> distinct (c_inherits c) \<Longrightarrow> distinct (contract_edges c)"
  by (auto simp: contract_edges_def distinct_map inj_on_def)

lemma distinct_concat_edges:
  "distinct (map c_name cs) \<Longrightarrow>
   \<forall>c\<in>set cs. distinct (c_imports c) \<and> distinct (c_inherits c) \<Longrightarrow>
   distinct (concat (map contract_edges cs))"
proof (induction cs)
  case Nil
  then show ?case by simp
next
  case (Cons c cs)
  have "set (contract_edges c) \<inter> set (concat (map contract_edges cs)) = {}"
  proof (rule ccontr)
    assume "\<not> ?thesis"
    then obtain e d where e: "e \<in> set (contract_edges c)"
      and d: "d \<in> set cs" "e \<in> set (contract_edges d)"
      by auto
    then have "c_name c = c_name d"
      by (simp add: mem_contract_edges)
    with Cons.prems(1) d(1) show False by auto
  qed
  with Cons show ?case by (simp add: distinct_contract_edges)
qed

lemma run_fields:
  "a_entryPointContracts (analyzeSolidity src tree) =
     identifyEntryPoints (a_contracts (analyzeSolidity src tree))
       (a_dependencyGraph (analyzeSolidity src tree))"
  "a_dependencyGraph (analyzeSolidity src tree) =
     buildDependencyGraph (a_contracts (analyzeSolidity src tree))"
  by (simp_all add: analyzeSolidity_def Let_def split: prod.splits)

lemma scenarioA_units:
  "extractContracts ''Shop.sol'' scenarioA_text scenarioA_root =
     [unit_of ''Token'' Contract ''Shop.sol'' [] [],
      unit_of ''Sale'' Contract ''Shop.sol'' [] []]"
  by code_simp

lemma scenarioA_run:
  "a_contracts (analyzeSolidity scenarioA_source
                  (tree_of [sol_file ''Shop.sol''])) =
     [unit_of ''Token'' Contract ''Shop.sol'' [] [],
      unit_of ''Sale'' Contract ''Shop.sol'' [] []]"
  by code_simp

lemma dupImport_units:
  "extractContracts ''C.sol'' dupImport_text dupImport_root =
     [unit_of ''C'' Contract ''C.sol'' [''./A.sol'', ''./A.sol''] []]"
  by code_simp

lemma dupImport_run:
  "a_contracts (analyzeSolidity dupImport_source
                  (tree_of [sol_file ''C.sol''])) =
     [unit_of ''C'' Contract ''C.sol'' [''./A.sol'', ''./A.sol''] []]"
  by code_simp

text \<open>
  The rule of \<open>identifyEntryPoints\<close>. In every analysis run the entry-point list is the
  list of the names of the contract units, in order, whose kind is \<open>contract\<close> and for
  which it is not the case that an inheritance edge of the run's dependency graph targets
  the unit's name while no inheritance edge originates from it. Equivalently, a concrete
  contract is missing from the entry points iff some unit lists its name as a parent and
  no unit of that name has a parent.
\<close>

lemma entryPoints_iff_not_only_inherited:
  "a_entryPointContracts (analyzeSolidity src tree) =
     map c_name
       (filter (\<lambda>c. c_type c = Contract \<and>
                  \<not> ((\<exists>e \<in> set (g_edges (a_dependencyGraph (analyzeSolidity src tree))).
                         e_type e = Inheritance \<and> e_to e = c_name c) \<and>
                     \<not> (\<exists>e \<in> set (g_edges (a_dependencyGraph (analyzeSolidity src tree))).
                         e_type e = Inheritance \<and> e_from e = c_name c)))
          (a_contracts (analyzeSolidity src tree)))
   \<and> (\<forall>c \<in> set (a_contracts (analyzeSolidity src tree)). c_type c = Contract \<longrightarrow>
        (c_name c \<notin> set (a_entryPointContracts (analyzeSolidity src tree)) \<longleftrightarrow>
           (\<exists>p \<in> set (a_contracts (analyzeSolidity src tree)). c_name c \<in> set (c_inherits p)) \<and>
           (\<forall>d \<in> set (a_contracts (analyzeSolidity src tree)).
              c_name d = c_name c \<longrightarrow> c_inherits d = [])))"
proof -
  define r where "r = analyzeSolidity src tree"
  have ep: "a_entryPointContracts r = identifyEntryPoints (a_contracts r) (a_dependencyGraph r)"
    and g: "g_edges (a_dependencyGraph r) = concat (map contract_edges (a_contracts r))"
    unfolding r_def by (simp_all add: run_fields(1) run_fields(2) edges_build)
  have inh: "(\<exists>e \<in> set (g_edges (a_dependencyGraph r)). e_type e = Inheritance \<and> e_to e = n)
       \<longleftrightarrow> (\<exists>p \<in> set (a_contracts r). n \<in> set (c_inherits p))" for n
  proof
    assume "\<exists>e \<in> set (g_edges (a_dependencyGraph r)). e_type e = Inheritance \<and> e_to e = n"
    then show "\<exists>p \<in> set (a_contracts r). n \<in> set (c_inherits p)"
      unfolding g by (auto simp: mem_contract_edges)
  next
    assume "\<exists>p \<in> set (a_contracts r). n \<in> set (c_inherits p)"
    then obtain p where p: "p \<in> set (a_contracts r)" "n \<in> set (c_inherits p)" by blast
    then have "\<lparr> e_from = c_name p, e_to = n, e_type = Inheritance \<rparr> \<in> set (contract_edges p)"
      by (simp add: mem_contract_edges)
    with p(1) show "\<exists>e \<in> set (g_edges (a_dependencyGraph r)). e_type e = Inheritance \<and> e_to e = n"
      unfolding g by force
  qed
  have out: "(\<exists>e \<in> set (g_edges (a_dependencyGraph r)). e_type e = Inheritance \<and> e_from e = n)
       \<longleftrightarrow> (\<exists>d \<in> set (a_contracts r). c_name d = n \<and> c_inherits d \<noteq> [])" for n
  proof
    assume "\<exists>e \<in> set (g_edges (a_dependencyGraph r)). e_type e = Inheritance \<and> e_from e = n"
    then show "\<exists>d \<in> set (a_contracts r). c_name d = n \<and> c_inherits d \<noteq> []"
      unfolding g by (auto simp: mem_contract_edges)
  next
    assume "\<exists>d \<in> set (a_contracts r). c_name d = n \<and> c_inherits d \<noteq> []"
    then obtain d t where d: "d \<in> set (a_contracts r)" "c_name d = n" "t \<in> set (c_inherits d)"
      by (metis last_in_set)
    then have "\<lparr> e_from = n, e_to = t, e_type = Inheritance \<rparr> \<in> set (contract_edges d)"
      by (simp add: mem_contract_edges)
    with d(1) show "\<exists>e \<in> set (g_edges (a_dependencyGraph r)). e_type e = Inheritance \<and> e_from e = n"
      unfolding g by force
  qed
  have only: "isOnlyInherited n (a_dependencyGraph r) \<longleftrightarrow>
       (\<exists>e \<in> set (g_edges (a_dependencyGraph r)). e_type e = Inheritance \<and> e_to e = n) \<and>
       \<not> (\<exists>e \<in> set (g_edges (a_dependencyGraph r)). e_type e = Inheritance \<and> e_from e = n)" for n
    by (auto simp: isOnlyInherited_def Let_def list_ex_iff)
  have 1: "a_entryPointContracts r =
     map c_name
       (filter (\<lambda>c. c_type c = Contract \<and>
                  \<not> ((\<exists>e \<in> set (g_edges (a_dependencyGraph r)).
                         e_type e = Inheritance \<and> e_to e = c_name c) \<and>
                     \<not> (\<exists>e \<in> set (g_edges (a_dependencyGraph r)).
                         e_type e = Inheritance \<and> e_from e = c_name c)))
          (a_contracts r))"
    unfolding ep identifyEntryPoints_def only ..
  have mem: "n \<in> set (a_entryPointContracts r) \<longleftrightarrow>
      (\<exists>c \<in> set (a_contracts r). c_name c = n \<and> c_type c = Contract)
      \<and> \<not> isOnlyInherited n (a_dependencyGraph r)" for n
    unfolding ep identifyEntryPoints_def by auto
  have 2: "\<forall>c \<in> set (a_contracts r). c_type c = Contract \<longrightarrow>
        (c_name c \<notin> set (a_entryPointContracts r) \<longleftrightarrow>
           (\<exists>p \<in> set (a_contracts r). c_name c \<in> set (c_inherits p)) \<and>
           (\<forall>d \<in> set (a_contracts r). c_name d = c_name c \<longrightarrow> c_inherits d = []))"
    unfolding mem only inh out by blast
  from 1 2 show ?thesis unfolding r_def by blast
qed

text \<open>
  On two units of which the second lists the first as its parent, the rule keeps the
  second only.
\<close>

lemma entryPoints_of_listed_parent:
  "identifyEntryPoints
     [unit_of ''Token'' Contract ''Shop.sol'' [] [],
      unit_of ''Sale'' Contract ''Shop.sol'' [] [''Token'']]
     (buildDependencyGraph
        [unit_of ''Token'' Contract ''Shop.sol'' [] [],
         unit_of ''Sale'' Contract ''Shop.sol'' [] [''Token'']]) = [''Sale'']"
  by code_simp

text \<open>
  Claim C1, Scenario A. For the file declaring \<open>contract Token {}\<close> and
  \<open>contract Sale is Token {}\<close> the analysis run does not answer \<open>[Sale]\<close>:
  \<open>extractContract\<close> looks for the parents under a field \<open>inheritance\<close>, which the
  declaration node does not have, so both units get an empty parent list, the dependency
  graph has no edge, and the entry points are \<open>[Token, Sale]\<close>.
\<close>

theorem scenarioA_entryPoints_keep_Token:
  "map c_inherits
     (a_contracts (analyzeSolidity scenarioA_source (tree_of [sol_file ''Shop.sol''])))
     = [[], []]
   \<and> g_edges (a_dependencyGraph
         (analyzeSolidity scenarioA_source (tree_of [sol_file ''Shop.sol'']))) = []
   \<and> a_entryPointContracts
         (analyzeSolidity scenarioA_source (tree_of [sol_file ''Shop.sol'']))
       = [''Token'', ''Sale'']"
proof -
  define r where "r = analyzeSolidity scenarioA_source (tree_of [sol_file ''Shop.sol''])"
  have c: "a_contracts r =
      [unit_of ''Token'' Contract ''Shop.sol'' [] [],
       unit_of ''Sale'' Contract ''Shop.sol'' [] []]"
    unfolding r_def by (rule scenarioA_run)
  have g: "g_edges (a_dependencyGraph r) = []"
    unfolding r_def run_fields(2) edges_build scenarioA_run
    by (simp add: contract_edges_def unit_of_def)
  have e: "a_entryPointContracts r = [''Token'', ''Sale'']"
    unfolding r_def run_fields(1) run_fields(2) scenarioA_run
    by (simp add: identifyEntryPoints_def isOnlyInherited_def Let_def edges_build
          contract_edges_def unit_of_def)
  show ?thesis
    unfolding r_def [symmetric] using c g e by (simp add: unit_of_def)
qed

text \<open>
  Claim C2, as stated, fails: a file that repeats the directive \<open>import "./A.sol";\<close>
  above \<open>contract C {}\<close> yields the edge \<open>(C, ./A.sol, import)\<close> twice.
\<close>

theorem duplicate_import_gives_duplicate_edge:
  "\<not> distinct (g_edges (a_dependencyGraph
       (analyzeSolidity dupImport_source
          (tree_of [sol_file ''C.sol'']))))"
  unfolding run_fields(2) edges_build dupImport_run
  by (simp add: contract_edges_def unit_of_def)

text \<open>
  Claim C2, amended. The edge list of the graph is the concatenation, contract unit by
  contract unit, of one import edge per listed import path followed by one inheritance
  edge per listed parent; edges are never compared with earlier ones. Hence the graph has
  at most one edge per (from, to, kind) triple whenever the contract names are pairwise
  distinct and no unit's import list or parent list repeats an entry.
\<close>

theorem dependency_edges_one_per_declaration:
  "g_edges (buildDependencyGraph cs) = concat (map contract_edges cs) \<and>
   (distinct (map c_name cs) \<and>
    (\<forall>c\<in>set cs. distinct (c_imports c) \<and> distinct (c_inherits c))
      \<longrightarrow> distinct (g_edges (buildDependencyGraph cs)))"
  by (simp add: edges_build distinct_concat_edges)

theorem dependency_edges_witness:
  "distinct (map c_name [unit_of ''Token'' Contract ''Shop.sol'' [''./Lib.sol''] [],
                         unit_of ''Sale'' Contract ''Shop.sol'' [''./Lib.sol''] [''Token'']])
   \<and> list_all (\<lambda>c. distinct (c_imports c) \<and> distinct (c_inherits c))
         [unit_of ''Token'' Contract ''Shop.sol'' [''./Lib.sol''] [],
          unit_of ''Sale'' Contract ''Shop.sol'' [''./Lib.sol''] [''Token'']]
   \<and> distinct (g_edges (buildDependencyGraph
         [unit_of ''Token'' Contract ''Shop.sol'' [''./Lib.sol''] [],
          unit_of ''Sale'' Contract ''Shop.sol'' [''./Lib.sol''] [''Token'']]))"
proof -
  have h: "distinct (map c_name [unit_of ''Token'' Contract ''Shop.sol'' [''./Lib.sol''] [],
                         unit_of ''Sale'' Contract ''Shop.sol'' [''./Lib.sol''] [''Token'']])
   \<and> (\<forall>c\<in>set [unit_of ''Token'' Contract ''Shop.sol'' [''./Lib.sol''] [],
                 unit_of ''Sale'' Contract ''Shop.sol'' [''./Lib.sol''] [''Token'']].
         distinct (c_imports c) \<and> distinct (c_inherits c))"
    by (simp add: unit_of_def)
  from dependency_edges_one_per_declaration
          [of "[unit_of ''Token'' Contract ''Shop.sol'' [''./Lib.sol''] [],
                unit_of ''Sale'' Contract ''Shop.sol'' [''./Lib.sol''] [''Token'']]"] h
  show ?thesis unfolding list_all_iff by blast
qed

section \<open>Properties of the contract extractor\<close>

lemma imports_loop_eq:
  "extractImports_loop src ns acc =
     acc @ List.map_filter (\<lambda>n. match_quoted (nodeText src n)) ns"
  by (induction ns arbitrary: acc) (auto simp: List.map_filter_simps split: option.splits)

lemma extractImports_eq:
  "extractImports rootNode src =
     List.map_filter (\<lambda>n. match_quoted (nodeText src n))
       (findNodesByType rootNode [''import_directive''])"
  by (simp add: extractImports_def imports_loop_eq)

lemma remdups_snoc: "remdups (xs @ [s]) = remdups (filter (\<lambda>x. x \<noteq> s) xs) @ [s]"
  by (induction xs) auto

lemma first_dedup_step:
  assumes "\<And>x. Q x = (P x \<and> x \<noteq> s)"
  shows "rev (remdups (rev (s # filter P xs))) = s # rev (remdups (rev (filter Q xs)))"
proof -
  have "filter Q xs = filter (\<lambda>x. x \<noteq> s) (filter P xs)"
    by (simp add: assms conj_commute cong: filter_cong)
  then show ?thesis by (simp add: remdups_snoc rev_filter)
qed

lemma inherits_loop_eq:
  "inherits_loop src ns acc =
     acc @ rev (remdups (rev (filter (\<lambda>s. s \<noteq> [] \<and> s \<notin> set acc) (map (nodeText src) ns))))"
proof (induction ns arbitrary: acc)
  case Nil
  then show ?case by simp
next
  case (Cons n ns)
  show ?case
  proof (cases "nodeText src n \<noteq> [] \<and> nodeText src n \<notin> set acc")
    case True
    have "rev (remdups (rev (nodeText src n #
              filter (\<lambda>s. s \<noteq> [] \<and> s \<notin> set acc) (map (nodeText src) ns))))
        = nodeText src n # rev (remdups (rev
              (filter (\<lambda>s. s \<noteq> [] \<and> s \<notin> set (acc @ [nodeText src n]))
                 (map (nodeText src) ns))))"
      by (rule first_dedup_step) auto
    with True show ?thesis
      by (simp add: Cons.IH Let_def)
  next
    case False
    then show ?thesis by (auto simp: Cons.IH Let_def)
  qed
qed

lemma extractInherits_eq:
  "extractInherits node src =
     (case childForFieldName node ''inheritance'' of
        None \<Rightarrow> []
      | Some i \<Rightarrow> rev (remdups (rev (filter (\<lambda>s. s \<noteq> [])
                    (map (nodeText src)
                       (findNodesByType i [''identifier'', ''user_defined_type''])))))) "
  by (simp add: extractInherits_def inherits_loop_eq split: option.splits)

lemma distinct_extractInherits: "distinct (extractInherits node src)"
  by (simp add: extractInherits_eq split: option.splits)

text \<open>
  Claim C7, as stated, fails for the import list: the unit extracted from the file that
  repeats \<open>import "./A.sol";\<close> lists the path twice.
\<close>

theorem imports_keep_duplicates:
  "extractContracts ''C.sol'' dupImport_text dupImport_root =
     [unit_of ''C'' Contract ''C.sol'' [''./A.sol'', ''./A.sol''] []]
   \<and> \<not> distinct (c_imports (unit_of ''C'' Contract ''C.sol'' [''./A.sol'', ''./A.sol''] []))"
  unfolding dupImport_units by (simp add: unit_of_def)

lemma map_map_filter:
  "map g (List.map_filter f xs) = List.map_filter (\<lambda>x. map_option g (f x)) xs"
  by (induction xs) (auto simp: List.map_filter_simps split: option.splits)

text \<open>
  Claim C7, amended. The contract units of a file follow its named declarations one by
  one, in document order. The parent list of a unit has no duplicate entries: it is the
  list of the non-empty texts of the identifier and type nodes under the \<open>inheritance\<close>
  field of the unit's own declaration node, each kept at its first occurrence, and it is
  empty when the declaration node has no such field. The import list of every unit is the
  file's list of import paths, one entry per import directive that holds a quoted
  literal, in document order; repeated paths are kept.
\<close>

theorem extracted_units_follow_declarations:
  "map (\<lambda>c. (c_name c, c_inherits c, c_imports c))
     (extractContracts filePath content rootNode) =
   List.map_filter
     (\<lambda>node.
        case childForFieldName node ''name'' of
          None \<Rightarrow> None
        | Some nameNode \<Rightarrow>
            Some (nodeText content nameNode,
                  (case childForFieldName node ''inheritance'' of
                     None \<Rightarrow> []
                   | Some i \<Rightarrow>
                       rev (remdups (rev (filter (\<lambda>s. s \<noteq> [])
                         (map (nodeText content)
                            (findNodesByType i [''identifier'', ''user_defined_type''])))))),
                  List.map_filter (\<lambda>n. match_quoted (nodeText content n))
                    (findNodesByType rootNode [''import_directive''])))
     (findNodesByType rootNode
        [''contract_declaration'', ''interface_declaration'', ''library_declaration''])
   \<and> (\<forall>c \<in> set (extractContracts filePath content rootNode). distinct (c_inherits c))"
proof -
  have f: "map_option (\<lambda>c. (c_name c, c_inherits c, c_imports c))
             (extractContract node filePath content (extractImports rootNode content)) =
           (case childForFieldName node ''name'' of
              None \<Rightarrow> None
            | Some nameNode \<Rightarrow>
                Some (nodeText content nameNode,
                      (case childForFieldName node ''inheritance'' of
                         None \<Rightarrow> []
                       | Some i \<Rightarrow>
                           rev (remdups (rev (filter (\<lambda>s. s \<noteq> [])
                             (map (nodeText content)
                                (findNodesByType i [''identifier'', ''user_defined_type''])))))),
                      List.map_filter (\<lambda>n. match_quoted (nodeText content n))
                        (findNodesByType rootNode [''import_directive''])))" for node
    by (simp add: extractContract_def extractInherits_eq extractImports_eq
          split: option.splits)
  have 1: "map (\<lambda>c. (c_name c, c_inherits c, c_imports c))
             (extractContracts filePath content rootNode) =
           List.map_filter
             (\<lambda>node. map_option (\<lambda>c. (c_name c, c_inherits c, c_imports c))
                (extractContract node filePath content (extractImports rootNode content)))
             (findNodesByType rootNode
                [''contract_declaration'', ''interface_declaration'', ''library_declaration''])"
    by (simp add: extractContracts_def Let_def map_map_filter)
  have 2: "distinct (c_inherits c)" if "c \<in> set (extractContracts filePath content rootNode)" for c
  proof -
    from that obtain node where
      "extractContract node filePath content (extractImports rootNode content) = Some c"
      by (auto simp: extractContracts_def Let_def List.map_filter_def)
    then have "c_inherits c = extractInherits node content"
      by (auto simp: extractContract_def split: option.splits)
    then show ?thesis by (simp add: distinct_extractInherits)
  qed
  from 1 2 show ?thesis unfolding f by blast
qed

theorem extracted_units_witness:
  "map (\<lambda>c. (c_name c, c_inherits c, c_imports c))
     (extractContracts ''Shop.sol'' scenarioA_text scenarioA_root) =
     [(''Token'', [], []), (''Sale'', [], [])]
   \<and> list_all (\<lambda>c. distinct (c_inherits c))
         (extractContracts ''Shop.sol'' scenarioA_text scenarioA_root)"
proof -
  have u: "map (\<lambda>c. (c_name c, c_inherits c, c_imports c))
             (extractContracts ''Shop.sol'' scenarioA_text scenarioA_root) =
           [(''Token'', [], []), (''Sale'', [], [])]"
    by (simp add: scenarioA_units unit_of_def)
  have b: "\<forall>c \<in> set (extractContracts ''Shop.sol'' scenarioA_text scenarioA_root).
             distinct (c_inherits c)"
    using extracted_units_follow_declarations [of "''Shop.sol''" scenarioA_text scenarioA_root]
    by (rule conjunct2)
  from u b show ?thesis unfolding list_all_iff by (rule conjI)
qed

section \<open>Properties of the planner\<close>

text \<open>
  Claim C9. When the text the recommendation generator answers with holds no parsable
  JSON array (the expression finds no bracketed span, or \<open>JSON.parse\<close> throws on the
  span), the planner does not throw: it returns a plan whose only recommendation is the
  fallback, of category \<open>architecture\<close>, confidence \<open>low\<close>, with the rationale that
  response parsing requires verification.
\<close>

theorem unparsable_response_yields_fallback:
  assumes "pe_llm env repoMetadata analysisResult = Text text"
    and "case match_span (CHR ''['') (CHR '']'') text of
           None \<Rightarrow> True | Some jsonMatch \<Rightarrow> pe_jsonParse env jsonMatch = None"
  shows "\<exists>plan. planMigration env isoNow now repoMetadata analysisResult = Inr plan
           \<and> p_recommendations plan = [fallbackRecommendation]
           \<and> r_changeCategory fallbackRecommendation = Architecture
           \<and> r_confidenceLevel fallbackRecommendation = Low
           \<and> r_rationale fallbackRecommendation =
                ''LLM analysis completed but response parsing requires verification''"
  using assms
  by (auto simp: planMigration_def generateRecommendations_def fallbackRecommendation_def
           split: option.splits)

theorem unparsable_response_witness:
  "pe_llm prose_planner (t_metadata (tree_of [])) (demo_analysis [])
     = Text ''I could not find anything to recommend.''
   \<and> match_span (CHR ''['') (CHR '']'') ''I could not find anything to recommend.'' = None
   \<and> (\<exists>plan. planMigration prose_planner [] 0 (t_metadata (tree_of [])) (demo_analysis [])
                = Inr plan
              \<and> p_recommendations plan = [fallbackRecommendation])"
proof -
  have 1: "pe_llm prose_planner (t_metadata (tree_of [])) (demo_analysis [])
             = Text ''I could not find anything to recommend.''"
    by (simp add: prose_planner_def)
  have 2: "match_span (CHR ''['') (CHR '']'') ''I could not find anything to recommend.'' = None"
    by (simp add: match_span_def)
  have 3: "case match_span (CHR ''['') (CHR '']'') ''I could not find anything to recommend.'' of
             None \<Rightarrow> True | Some jsonMatch \<Rightarrow> pe_jsonParse prose_planner jsonMatch = None"
    by (simp add: 2)
  from unparsable_response_yields_fallback [OF 1 3, of "[]" 0] 1 2 show ?thesis by blast
qed

section \<open>Properties of the transformation report\<close>

lemma transformFile_facts:
  assumes "transformFile env an filePath recs = Inr tf"
  shows "tf_hasChanges tf = (0 < length (tf_appliedChanges tf))"
    and "length (tf_appliedChanges tf) = 0 \<Longrightarrow> tf_confidenceScore tf = js_int 0"
  using assms
  by (auto simp: transformFile_def Let_def calculateConfidenceScore_def
           split: option.splits if_splits sum.splits)

lemma transform_loop_inv:
  "report_inv r \<Longrightarrow> report_inv (fst (transform_loop env an groups (r, tfs)))"
proof (induction groups arbitrary: r tfs)
  case Nil
  then show ?case by simp
next
  case (Cons g groups)
  obtain filePath recs where g: "g = (filePath, recs)" by (cases g)
  show ?case
  proof (cases "transformFile env an filePath recs")
    case (Inl msg)
    have "report_inv (r\<lparr> tr_filesProcessed := tr_filesProcessed r + 1,
                  tr_filesSkipped := tr_filesSkipped r + 1,
                  tr_errors := tr_errors r @ [(Some filePath, msg)] \<rparr>)"
      using Cons.prems by (simp add: report_inv_def modified_reports_def)
    then show ?thesis using Inl g Cons.IH by simp
  next
    case (Inr tf)
    note f = transformFile_facts[OF Inr]
    let ?r' = "r \<lparr> tr_filesProcessed := tr_filesProcessed r + 1,
                  tr_filesModified :=
                    (if tf_hasChanges tf then tr_filesModified r + 1
                     else tr_filesModified r),
                  tr_filesSkipped :=
                    (if tf_hasChanges tf then tr_filesSkipped r
                     else tr_filesSkipped r + 1),
                  tr_totalAppliedChanges :=
                    tr_totalAppliedChanges r + length (tf_appliedChanges tf),
                  tr_totalSkippedChanges :=
                    tr_totalSkippedChanges r + length (tf_skippedChanges tf),
                  tr_fileReports := tr_fileReports r @
                    [\<lparr> fr_filePath = filePath,
                       fr_success = True,
                       fr_appliedChangesCount = length (tf_appliedChanges tf),
                       fr_skippedChangesCount = length (tf_skippedChanges tf),
                       fr_confidenceScore = tf_confidenceScore tf,
                       fr_warnings = tf_warnings tf,
                       fr_diffPreview =
                         generateDiffPreview (tf_originalContent tf)
                           (tf_transformedContent tf) \<rparr>] \<rparr>"
    have "report_inv ?r'"
      using Cons.prems f by (auto simp: report_inv_def modified_reports_def)
    then show ?thesis using Inr g Cons.IH[of ?r'] by simp
  qed
qed

lemma initial_inv: "report_inv (initial_report n i t)"
  by (simp add: report_inv_def initial_report_def modified_reports_def)

lemma validate_keeps:
  "tr_fileReports (validateCrossFileConsistency an tfs r) = tr_fileReports r"
  "tr_filesModified (validateCrossFileConsistency an tfs r) = tr_filesModified r"
  by (simp_all add: validateCrossFileConsistency_def Let_def)

lemma transformRepository_fields:
  "tr_fileReports (transformRepository env i t plan an tree) =
     tr_fileReports (fst (transform_loop env an (groupRecommendationsByFile plan)
              (initial_report (m_fullName (t_metadata tree)) i t, [])))"
  "tr_filesModified (transformRepository env i t plan an tree) =
     tr_filesModified (fst (transform_loop env an (groupRecommendationsByFile plan)
              (initial_report (m_fullName (t_metadata tree)) i t, [])))"
  "rs_overallConfidence (tr_summary (transformRepository env i t plan an tree)) =
     overallConfidence (validateCrossFileConsistency an
        (snd (transform_loop env an (groupRecommendationsByFile plan)
              (initial_report (m_fullName (t_metadata tree)) i t, [])))
        (fst (transform_loop env an (groupRecommendationsByFile plan)
              (initial_report (m_fullName (t_metadata tree)) i t, []))))"
  by (simp_all add: transformRepository_def Let_def validate_keeps split: prod.splits)

lemma fold_scores:
  "fold (\<lambda>f sum. js_add sum (fr_confidenceScore f)) fs a =
     fold (\<lambda>x sum. js_add sum x) (map fr_confidenceScore fs) a"
  by (simp add: fold_map comp_def)

lemma twoFiles_scores:
  "map fr_confidenceScore (tr_fileReports twoFiles_report) = [nearest_double 9 10, js_int 0]"
  by code_simp

lemma twoFiles_counts:
  "map fr_appliedChangesCount (tr_fileReports twoFiles_report) = [1, 0]"
  by code_simp

text \<open>
  The rounding of the scores. One applied change for a medium-confidence and a
  low-confidence recommendation scores 0.22: the sum \<open>0.6 + 0.3\<close> is the number below
  0.9, and the product with 100 stays below 22.5. Three applied changes for five
  recommendations (high, medium, three times low) score 0.29, and with a skipped second
  file the overall confidence is 0.14: half of 0.29 times 100 stays below 14.5.
\<close>

lemma mixedLevels_scores:
  "map fr_confidenceScore (tr_fileReports mixedLevels_report) = [nearest_double 22 100]"
  by code_simp

lemma threeOfFive_scores:
  "map fr_confidenceScore (tr_fileReports threeOfFive_report)
     = [nearest_double 29 100, js_int 0]"
  by code_simp

lemma threeOfFive_overall:
  "rs_overallConfidence (tr_summary threeOfFive_report) = nearest_double 14 100"
  by code_simp

text \<open>
  Claim C6, as stated, fails: when the transformer changes one file (confidence 0.9) and
  skips a second one, the report's overall confidence is 0.45, while the mean over the
  modified files only is 0.9.
\<close>

theorem overall_confidence_counts_unmodified_files:
  "rs_overallConfidence (tr_summary twoFiles_report) = nearest_double 45 100
   \<and> claimed_overallConfidence twoFiles_report = nearest_double 9 10
   \<and> js_less (rs_overallConfidence (tr_summary twoFiles_report))
        (claimed_overallConfidence twoFiles_report)"
  by code_simp

text \<open>
  Claim C6, amended. The overall confidence of a transformation report is 0 when no file
  was modified. Otherwise it is computed from all file reports, one per file whose
  transformation did not throw, modified or not: their confidence scores are added from
  the left, starting at 0, the sum is divided by the number of all file reports and
  multiplied by 100, the product is rounded to the nearest integer, and the integer is
  divided by 100, each operation in binary64 arithmetic. A file with zero applied changes
  has confidence 0, so it adds 0 to the sum and is counted in the divisor.
\<close>

theorem overall_confidence_divides_by_all_file_reports:
  fixes env isoNow now plan analysisResult tree
  defines "report \<equiv> transformRepository env isoNow now plan analysisResult tree"
  shows "rs_overallConfidence (tr_summary report) =
           (if modified_reports report = [] then js_int 0
            else js_div
                   (Math_round
                      (js_mul
                         (js_div
                            (fold (\<lambda>f sum. js_add sum (fr_confidenceScore f))
                               (tr_fileReports report) (js_int 0))
                            (js_length (tr_fileReports report)))
                         (js_int 100)))
                   (js_int 100))
         \<and> (\<forall>f \<in> set (tr_fileReports report).
               fr_appliedChangesCount f = 0 \<longrightarrow> fr_confidenceScore f = js_int 0)"
proof -
  define r1 where "r1 = fst (transform_loop env analysisResult (groupRecommendationsByFile plan)
              (initial_report (m_fullName (t_metadata tree)) isoNow now, []))"
  have inv: "report_inv r1"
    unfolding r1_def by (rule transform_loop_inv) (rule initial_inv)
  have fr: "tr_fileReports report = tr_fileReports r1"
    and fm: "tr_filesModified report = tr_filesModified r1"
    unfolding report_def r1_def by (simp_all add: transformRepository_fields)
  have mr: "modified_reports report = modified_reports r1"
    by (simp add: modified_reports_def fr)
  have oc: "rs_overallConfidence (tr_summary report) =
      (if tr_filesModified r1 > 0
       then js_div
              (Math_round
                 (js_mul
                    (js_div
                       (fold (\<lambda>f sum. js_add sum (fr_confidenceScore f))
                          (tr_fileReports r1) (js_int 0))
                       (js_length (tr_fileReports r1)))
                    (js_int 100)))
              (js_int 100)
       else js_int 0)"
    unfolding report_def r1_def
    by (simp add: transformRepository_fields(3) overallConfidence_def validate_keeps)
  have z: "\<forall>f \<in> set (tr_fileReports r1).
             fr_appliedChangesCount f = 0 \<longrightarrow> fr_confidenceScore f = js_int 0"
    and m: "tr_filesModified r1 = length (modified_reports r1)"
    using inv by (simp_all add: report_inv_def)
  show ?thesis
    unfolding oc mr fr m using z by auto
qed

theorem overall_confidence_twoFiles_witness:
  "map fr_appliedChangesCount (tr_fileReports twoFiles_report) = [1, 0]
   \<and> map fr_confidenceScore (tr_fileReports twoFiles_report) = [nearest_double 9 10, js_int 0]
   \<and> rs_overallConfidence (tr_summary twoFiles_report) =
       js_div
         (Math_round
            (js_mul
               (js_div (js_add (js_add (js_int 0) (nearest_double 9 10)) (js_int 0)) (js_int 2))
               (js_int 100)))
         (js_int 100)"
proof -
  have l: "length (tr_fileReports twoFiles_report) = 2"
    using arg_cong [OF twoFiles_scores, of length] by simp
  have n: "modified_reports twoFiles_report \<noteq> []"
  proof
    assume "modified_reports twoFiles_report = []"
    then have "filter (\<lambda>k. 0 < k) (map fr_appliedChangesCount (tr_fileReports twoFiles_report)) = []"
      by (simp add: modified_reports_def filter_map comp_def)
    then show False by (simp add: twoFiles_counts)
  qed
  have "rs_overallConfidence (tr_summary twoFiles_report) =
           (if modified_reports twoFiles_report = [] then js_int 0
            else js_div
                   (Math_round
                      (js_mul
                         (js_div
                            (fold (\<lambda>f sum. js_add sum (fr_confidenceScore f))
                               (tr_fileReports twoFiles_report) (js_int 0))
                            (js_length (tr_fileReports twoFiles_report)))
                         (js_int 100)))
                   (js_int 100))"
    unfolding twoFiles_report_def
    using overall_confidence_divides_by_all_file_reports by blast
  then have "rs_overallConfidence (tr_summary twoFiles_report) =
       js_div
         (Math_round
            (js_mul
               (js_div
                  (fold (\<lambda>x sum. js_add sum x)
                     (map fr_confidenceScore (tr_fileReports twoFiles_report)) (js_int 0))
                  (js_int 2))
               (js_int 100)))
         (js_int 100)"
    using n l by (simp add: fold_scores js_length_def)
  then have "rs_overallConfidence (tr_summary twoFiles_report) =
       js_div
         (Math_round
            (js_mul
               (js_div (js_add (js_add (js_int 0) (nearest_double 9 10)) (js_int 0)) (js_int 2))
               (js_int 100)))
         (js_int 100)"
    unfolding twoFiles_scores by simp
  then show ?thesis by (simp add: twoFiles_scores twoFiles_counts)
qed

section \<open>Properties of the cross-file consistency check\<close>

lemma match_quoted_nonempty: "match_quoted s = Some p \<Longrightarrow> p \<noteq> []"
  by (induction s) (auto split: if_splits)

lemma validate_issues:
  "cc_issues (tr_crossFileConsistency (validateCrossFileConsistency an tfs r)) =
     concat (map (file_import_issues an) tfs)
     @ concat (map (inheritance_issues an) (a_contracts an))"
  by (simp add: validateCrossFileConsistency_def Let_def)

lemma validate_importsValid:
  assumes "e \<in> set tfs" and "x \<in> set (file_import_issues an e)"
  shows "\<not> cc_importsValid (tr_crossFileConsistency (validateCrossFileConsistency an tfs r))"
proof -
  from assms(2) have "file_import_issues an e \<noteq> []" by auto
  with assms(1) have "\<exists>xs\<in>set tfs. file_import_issues an xs \<noteq> []" by blast
  then show ?thesis by (auto simp: validateCrossFileConsistency_def Let_def)
qed

text \<open>
  What the check does report: an import statement the scan finds in a transformed file,
  whose quoted path does not start with \<open>http\<close>, holds no \<open>@\<close> and resolves to no
  analyzed contract's file, clears \<open>importsValid\<close> and adds an issue naming the file and
  the path.
\<close>

lemma scanned_broken_import_reported:
  assumes "(filePath, tf) \<in> set tfs"
    and "stmt \<in> set (match_imports (tf_transformedContent tf))"
    and "match_quoted stmt = Some importPath"
    and "\<not> startsWith importPath ''http''"
    and "\<not> includes_str importPath ''@''"
    and "\<not> fileExists an (resolveImport filePath importPath)"
  shows "\<not> cc_importsValid (tr_crossFileConsistency (validateCrossFileConsistency an tfs r))
         \<and> (''File '' @ filePath @ '': Import not found: '' @ importPath)
             \<in> set (cc_issues (tr_crossFileConsistency (validateCrossFileConsistency an tfs r)))"
proof -
  define issue where "issue = ''File '' @ filePath @ '': Import not found: '' @ importPath"
  have ne: "importPath \<noteq> []"
    by (rule match_quoted_nonempty[OF assms(3)])
  have "import_issues an filePath stmt = [issue]"
    unfolding import_issues_def issue_def using assms(3-6) ne by simp
  then have "issue \<in> set (import_issues an filePath stmt)" by simp
  with assms(2) have
    "\<exists>s \<in> set (match_imports (tf_transformedContent tf)). issue \<in> set (import_issues an filePath s)"
    by blast
  then have i: "issue \<in> set (file_import_issues an (filePath, tf))"
    unfolding file_import_issues_def by simp
  with assms(1) have "\<exists>e \<in> set tfs. issue \<in> set (file_import_issues an e)"
    by blast
  then have m: "issue \<in> set (concat (map (file_import_issues an) tfs))"
    by simp
  have v: "\<not> cc_importsValid (tr_crossFileConsistency (validateCrossFileConsistency an tfs r))"
    by (rule validate_importsValid[OF assms(1) i])
  have "issue \<in> set (cc_issues (tr_crossFileConsistency (validateCrossFileConsistency an tfs r)))"
    unfolding validate_issues using m by simp
  with v show ?thesis unfolding issue_def by blast
qed

text \<open>
  Scenario B: the double-quoted import of \<open>./Missing.sol\<close> is reported.
\<close>

lemma doubleQuoted_missing_import_reported:
  "tr_crossFileConsistency (missing_report missing_doubleQuoted) =
     \<lparr> cc_checked = True, cc_importsValid = False, cc_inheritanceValid = True,
        cc_issues = [''File contracts/A.sol: Import not found: ./Missing.sol''] \<rparr>"
  by code_simp

text \<open>
  Claim C8 is not met by the code for imports the scan does not recognise: with the same
  unresolved relative path written as a named import, or with single quotes, the report
  keeps \<open>importsValid = true\<close> and has no issue.
\<close>

theorem named_or_singleQuoted_missing_import_not_reported:
  "tr_crossFileConsistency (missing_report missing_named) =
     \<lparr> cc_checked = True, cc_importsValid = True, cc_inheritanceValid = True,
        cc_issues = [] \<rparr>
   \<and> tr_crossFileConsistency (missing_report missing_singleQuoted) =
     \<lparr> cc_checked = True, cc_importsValid = True, cc_inheritanceValid = True,
        cc_issues = [] \<rparr>"
  by code_simp

section \<open>Properties of the plan request\<close>

lemma show_MAX_RECOMMENDATIONS: "show_nat MAX_RECOMMENDATIONS = ''200''"
  by code_simp

lemma truncate_facts:
  "length (p_recommendations (truncate_recommendations p)) \<le> 200"
  "length (p_recommendations p) > 200 \<Longrightarrow>
     p_recommendations (truncate_recommendations p) = take 200 (p_recommendations p) \<and>
     p_limitations (truncate_recommendations p) = p_limitations p @
        [''Recommendations truncated to first 200 items for response size limits'']"
  "\<not> length (p_recommendations p) > 200 \<Longrightarrow> truncate_recommendations p = p"
  unfolding truncate_recommendations_def show_MAX_RECOMMENDATIONS
  by (simp_all add: MAX_RECOMMENDATIONS_def)

lemma plan_and_store_success:
  assumes "plan_and_store env clock cacheKey md an st = (Success plan, st')"
  shows "\<exists>generated.
           planMigration (he_planner env) (k_planIso clock) (k_planNow clock) md an = Inr generated
           \<and> plan = truncate_recommendations generated
           \<and> planCache st' cacheKey = Some \<lparr> pc_plan = plan, pc_timestamp = k_planStore clock \<rparr>"
  using assms by (auto simp: plan_and_store_def Let_def split: sum.splits)

text \<open>
  Claim C10. The plan a successful plan request returns is the plan it stores in the plan
  cache under the request's key, and it holds at most 200 recommendations: when the
  planner produced more, the list is cut to its first 200 entries, in order, and the
  truncation note is appended to the limitations; otherwise the plan is the planner's.
\<close>

theorem plan_request_truncates_to_200:
  assumes "handlePlanMigrationRequest env clock body st = (Success plan, st')"
  shows "length (p_recommendations plan) \<le> 200
       \<and> (\<exists>cacheKey. request_cacheKey body = Inr cacheKey
            \<and> planCache st' cacheKey = Some \<lparr> pc_plan = plan, pc_timestamp = k_planStore clock \<rparr>)
       \<and> (\<exists>repoMetadata analysisResult generated.
             planMigration (he_planner env) (k_planIso clock) (k_planNow clock)
               repoMetadata analysisResult = Inr generated
             \<and> (if length (p_recommendations generated) > 200
                 then p_recommendations plan = take 200 (p_recommendations generated)
                      \<and> p_limitations plan = p_limitations generated @
                          [''Recommendations truncated to first 200 items for response size limits'']
                 else plan = generated))"
proof -
  from assms obtain cacheKey md an st1 where
    k: "request_cacheKey body = Inr cacheKey" and
    p: "plan_and_store env clock cacheKey md an st1 = (Success plan, st')"
    unfolding handlePlanMigrationRequest_def Let_def
    by (auto split: sum.splits option.splits if_splits prod.splits)
  from plan_and_store_success[OF p] obtain generated where
    g: "planMigration (he_planner env) (k_planIso clock) (k_planNow clock) md an = Inr generated"
    and t: "plan = truncate_recommendations generated"
    and c: "planCache st' cacheKey = Some \<lparr> pc_plan = plan, pc_timestamp = k_planStore clock \<rparr>"
    by blast
  have 1: "length (p_recommendations plan) \<le> 200"
    unfolding t by (rule truncate_facts(1))
  have 2: "if length (p_recommendations generated) > 200
                 then p_recommendations plan = take 200 (p_recommendations generated)
                      \<and> p_limitations plan = p_limitations generated @
                          [''Recommendations truncated to first 200 items for response size limits'']
                 else plan = generated"
    unfolding t using truncate_facts(2,3)[of generated]
    by (cases "length (p_recommendations generated) > 200") simp_all
  from 1 k c g 2 show ?thesis by blast
qed

lemma long_plan_answer:
  "truncated_answer
     (fst (handlePlanMigrationRequest (demo_http (named_tree ''o/r'') (replicate 201 tiny_rec))
             (clock_at 0) (url_body ''https://github.com/o/r'') empty_state))"
  by code_simp

theorem plan_request_witness:
  "\<exists>plan st'.
     handlePlanMigrationRequest (demo_http (named_tree ''o/r'') (replicate 201 tiny_rec))
       (clock_at 0) (url_body ''https://github.com/o/r'') empty_state = (Success plan, st')
     \<and> length (p_recommendations plan) = 200
     \<and> last (p_limitations plan)
         = ''Recommendations truncated to first 200 items for response size limits''
     \<and> length (p_recommendations plan) \<le> 200"
proof -
  define res where
    "res = handlePlanMigrationRequest (demo_http (named_tree ''o/r'') (replicate 201 tiny_rec))
             (clock_at 0) (url_body ''https://github.com/o/r'') empty_state"
  have "truncated_answer (fst res)"
    unfolding res_def by (rule long_plan_answer)
  then obtain plan where p: "fst res = Success plan"
    and l: "length (p_recommendations plan) = 200"
    and m: "last (p_limitations plan)
             = ''Recommendations truncated to first 200 items for response size limits''"
    unfolding truncated_answer_def by (cases "fst res") auto
  have r: "res = (Success plan, snd res)"
    using p by (metis prod.collapse)
  from plan_request_truncates_to_200 [OF r [unfolded res_def]]
  have "length (p_recommendations plan) \<le> 200" by blast
  with r l m show ?thesis unfolding res_def by blast
qed

section \<open>Properties of the transform request and the caches\<close>


lemma tree_stage_result:
  assumes "tree_stage env body K st = Inr (tree, st1)"
  shows "analysisCache st1 = analysisCache st" "planCache st1 = planCache st"
    "repoCache st1 K = Some tree"
    "\<And>k t. repoCache st k = Some t \<Longrightarrow> repoCache st1 k = Some t"
  using assms by (auto simp: tree_stage_def Let_def split: option.splits sum.splits)

lemma analysis_stage_result:
  assumes "analysis_stage env clock K tree st = (a, st2)"
  shows "repoCache st2 = repoCache st" "planCache st2 = planCache st"
    "analysisCache st2 K = Some a"
    "\<And>k. k \<noteq> K \<Longrightarrow> analysisCache st2 k = analysisCache st k"
    "\<And>e. analysisCache st K = Some e \<Longrightarrow> expired (k_analysisCheck clock) (an_timestamp e) \<Longrightarrow>
        a = fresh_analysis env clock tree"
    "\<And>e. analysisCache st K = Some e \<Longrightarrow> \<not> expired (k_analysisCheck clock) (an_timestamp e) \<Longrightarrow>
        a = e"
  using assms
  by (auto simp: analysis_stage_def fresh_analysis_def Let_def split: option.splits if_splits)

lemma plan_stage_result:
  assumes "plan_stage env clock K a st = Inr (p, st3)"
  shows "repoCache st3 = repoCache st" "analysisCache st3 = analysisCache st"
    "planCache st3 K = Some p"
    "\<And>k. k \<noteq> K \<Longrightarrow> planCache st3 k = planCache st k"
    "\<And>e. planCache st K = Some e \<Longrightarrow> \<not> expired (k_planCheck clock) (pc_timestamp e) \<Longrightarrow> p = e"
    "\<And>e. planCache st K = Some e \<Longrightarrow> expired (k_planCheck clock) (pc_timestamp e) \<Longrightarrow>
        \<exists>plan. planMigration (he_planner env) (k_planIso clock) (k_planNow clock)
                  (an_repoMetadata a) (an_analysisResult a) = Inr plan
               \<and> p = \<lparr> pc_plan = plan, pc_timestamp = k_planStore clock \<rparr>"
  using assms
  by (auto simp: plan_stage_def Let_def split: option.splits if_splits sum.splits)

lemma handle_cases:
  assumes "handleTransformRequest env clock body st = (response, st')"
  shows "(\<exists>msg. request_cacheKey body = Inl msg \<and> st' = st \<and> response = Failure 400 msg)
       \<or> (\<exists>K msg. request_cacheKey body = Inr K \<and> tree_stage env body K st = Inl msg \<and> st' = st
              \<and> response = Failure 500 msg)
       \<or> (\<exists>K tree st1 a st2.
              request_cacheKey body = Inr K \<and> tree_stage env body K st = Inr (tree, st1)
              \<and> analysis_stage env clock K tree st1 = (a, st2)
              \<and> ((\<exists>msg. plan_stage env clock K a st2 = Inl msg \<and> st' = st2
                         \<and> response = Failure 500 msg)
                 \<or> (\<exists>p r. plan_stage env clock K a st2 = Inr (p, st') \<and> response = Success r)))"
  using assms unfolding handleTransformRequest_def
  by (auto split: sum.splits prod.splits)

lemma late_run_facts:
  "map_option an_timestamp (analysisCache after_two_plans ''o/r'') = Some 0"
  "map_option pc_timestamp (planCache after_two_plans ''o/r'') = Some 1000000"
  by code_simp+

lemma late_run_analysis:
  "map_option an_timestamp (analysisCache after_late_transform ''o/r'') = Some 2000000"
  by code_simp

lemma late_run_plan:
  "planCache after_late_transform ''o/r'' = planCache after_two_plans ''o/r''"
  by code_simp

text \<open>
  Claim C3, as stated, fails: after two plan requests for \<open>o/r\<close> at the clock readings 0
  and 1000000, a transform request at the reading 2000000 finds the analysis entry
  expired and recomputes it, and the plan entry of \<open>o/r\<close>, derived from the old analysis,
  is still in the plan cache, unchanged.
\<close>

theorem recomputed_analysis_keeps_plan:
  "map_option an_timestamp (analysisCache after_two_plans ''o/r'') = Some 0
   \<and> map_option an_timestamp (analysisCache after_late_transform ''o/r'') = Some 2000000
   \<and> map_option pc_timestamp (planCache after_two_plans ''o/r'') = Some 1000000
   \<and> planCache after_late_transform ''o/r'' = planCache after_two_plans ''o/r''"
  using late_run_facts late_run_analysis late_run_plan by blast

text \<open>
  Claim C3, amended. A transform request deletes no cache entry. Recomputing the analysis
  of key K overwrites K's analysis entry and leaves K's tree in place; every tree,
  analysis entry and plan entry present before the request is present after it, and a
  plan entry that is not older than the TTL at the plan test is kept as it is, also when
  the analysis before it was recomputed. (There is no cache of transformation reports.)
\<close>

theorem transform_request_deletes_no_entry:
  assumes "handleTransformRequest env clock body st = (response, st')"
  shows "(\<forall>k t. repoCache st k = Some t \<longrightarrow> repoCache st' k = Some t)
       \<and> (\<forall>k. analysisCache st k \<noteq> None \<longrightarrow> analysisCache st' k \<noteq> None)
       \<and> (\<forall>k. planCache st k \<noteq> None \<longrightarrow> planCache st' k \<noteq> None)
       \<and> (\<forall>k e. planCache st k = Some e \<and> \<not> expired (k_planCheck clock) (pc_timestamp e)
              \<longrightarrow> planCache st' k = Some e)"
proof -
  from handle_cases[OF assms] consider
    (same) "st' = st"
  | (analysed) K tree st1 a where
      "tree_stage env body K st = Inr (tree, st1)"
      "analysis_stage env clock K tree st1 = (a, st')"
  | (planned) K tree st1 a st2 p where
      "tree_stage env body K st = Inr (tree, st1)"
      "analysis_stage env clock K tree st1 = (a, st2)"
      "plan_stage env clock K a st2 = Inr (p, st')"
    by blast
  then show ?thesis
  proof cases
    case same
    then show ?thesis by simp
  next
    case analysed
    note t = tree_stage_result[OF analysed(1)] and a = analysis_stage_result[OF analysed(2)]
    have r: "\<forall>k t. repoCache st k = Some t \<longrightarrow> repoCache st' k = Some t"
      using t(4) a(1) by simp
    have an: "\<forall>k. analysisCache st k \<noteq> None \<longrightarrow> analysisCache st' k \<noteq> None"
      using t(1) a(3,4) by (metis option.distinct(1))
    have pl: "planCache st' = planCache st"
      using t(2) a(2) by simp
    from r an pl show ?thesis by simp
  next
    case planned
    note t = tree_stage_result[OF planned(1)] and a = analysis_stage_result[OF planned(2)]
      and p = plan_stage_result[OF planned(3)]
    have r: "\<forall>k t. repoCache st k = Some t \<longrightarrow> repoCache st' k = Some t"
      using t(4) a(1) p(1) by simp
    have an: "\<forall>k. analysisCache st k \<noteq> None \<longrightarrow> analysisCache st' k \<noteq> None"
      using t(1) a(3,4) p(2) by (metis option.distinct(1))
    have ps: "planCache st2 = planCache st"
      using t(2) a(2) by simp
    have pl: "\<forall>k. planCache st k \<noteq> None \<longrightarrow> planCache st' k \<noteq> None"
      using ps p(3,4) by (metis option.distinct(1))
    have keep: "\<forall>k e. planCache st k = Some e \<and> \<not> expired (k_planCheck clock) (pc_timestamp e)
              \<longrightarrow> planCache st' k = Some e"
    proof (intro allI impI)
      fix k e
      assume h: "planCache st k = Some e \<and> \<not> expired (k_planCheck clock) (pc_timestamp e)"
      show "planCache st' k = Some e"
      proof (cases "k = K")
        case True
        with h p(5)[of e] p(3) ps show ?thesis by simp
      next
        case False
        with h p(4)[of k] ps show ?thesis by simp
      qed
    qed
    from r an pl keep show ?thesis by blast
  qed
qed

theorem transform_request_keeps_fresh_plan_witness:
  "map_option pc_timestamp (planCache after_two_plans ''o/r'') = Some 1000000
   \<and> \<not> expired (k_planCheck (clock_at 2000000)) 1000000
   \<and> planCache after_late_transform ''o/r'' = planCache after_two_plans ''o/r''"
proof -
  from late_run_facts(2) obtain e where
    e: "planCache after_two_plans ''o/r'' = Some e" and ts: "pc_timestamp e = 1000000"
    by (cases "planCache after_two_plans ''o/r''") auto
  have x: "\<not> expired (k_planCheck (clock_at 2000000)) 1000000"
    by (simp add: expired_def clock_at_def CACHE_TTL_MS_def)
  have run: "handleTransformRequest
               (demo_http (named_tree ''o/r'') [demo_rec ''Shop.sol'' ''Sale''])
               (clock_at 2000000) (url_body ''https://github.com/o/r'') after_two_plans
             = (fst (handleTransformRequest
                       (demo_http (named_tree ''o/r'') [demo_rec ''Shop.sol'' ''Sale''])
                       (clock_at 2000000) (url_body ''https://github.com/o/r'') after_two_plans),
                after_late_transform)"
    unfolding after_late_transform_def by simp
  from transform_request_deletes_no_entry [OF run] e ts x
  have "planCache after_late_transform ''o/r'' = Some e" by metis
  with e x late_run_facts(2) show ?thesis by simp
qed










lemma demo_cacheKey: "request_cacheKey (url_body ''https://github.com/o/r'') = Inr ''o/r''"
  by code_simp


section \<open>Properties of overlapping requests\<close>

lemma overlapping_calls:
  "map stage_of (w_calls overlapping_run) =
     [TreeStage, TreeStage, AnalysisStage, AnalysisStage, PlanStage, PlanStage,
      TransformStage, TransformStage]"
  by code_simp

lemma consecutive_calls:
  "map stage_of (w_calls consecutive_run) =
     [TreeStage, AnalysisStage, PlanStage, TransformStage, TransformStage]"
  by code_simp

lemma overlapping_replies: "map fst (w_replies overlapping_run) = [1, 2]"
  by code_simp

text \<open>
  Claim C4, as stated, fails: two requests for \<open>o/r\<close> that arrive on the empty server
  before either is resumed cause two calls of every stage's compute function, and both
  are answered; the same two requests one behind the other cause one call of ingestion,
  analysis and planning.
\<close>

theorem overlapping_requests_compute_twice:
  "map stage_of (w_calls overlapping_run) =
     [TreeStage, TreeStage, AnalysisStage, AnalysisStage, PlanStage, PlanStage,
      TransformStage, TransformStage]
   \<and> map fst (w_replies overlapping_run) = [1, 2]
   \<and> map stage_of (w_calls consecutive_run) =
     [TreeStage, AnalysisStage, PlanStage, TransformStage, TransformStage]"
  using overlapping_calls overlapping_replies consecutive_calls by blast

lemma arrive_cold:
  "request_cacheKey body = Inr K \<Longrightarrow> repoCache st K = None \<Longrightarrow>
   arrive clock body st = (Suspended (AwaitIngest K (ingest_url K body)), st)"
  by (simp add: arrive_def)

lemma arrivals_cold:
  assumes "\<forall>(rid, clock, body) \<in> set requests. request_cacheKey body = Inr K"
    and "repoCache (w_state w) K = None"
  shows "run env (arrivals requests) w =
           w \<lparr> w_pending := w_pending w @
                  map (\<lambda>(rid, clock, body). (rid, clock, AwaitIngest K (ingest_url K body))) requests,
               w_calls := w_calls w @
                  map (\<lambda>(rid, clock, body). IngestCall (ingest_url K body)) requests \<rparr>"
  using assms
proof (induction requests arbitrary: w)
  case Nil
  then show ?case by (simp add: run_def arrivals_def)
next
  case (Cons r requests)
  obtain rid clock body where r: "r = (rid, clock, body)" by (cases r)
  from Cons.prems(1) r have k: "request_cacheKey body = Inr K" by simp
  let ?w1 = "w \<lparr> w_state := w_state w,
                  w_pending := w_pending w @ [(rid, clock, AwaitIngest K (ingest_url K body))],
                  w_calls := w_calls w @ [IngestCall (ingest_url K body)] \<rparr>"
  have s: "step env (Arrive rid clock body) w = ?w1"
    by (simp add: step_def record_progress_def arrive_cold[OF k Cons.prems(2)] call_of_def)
  have "run env (arrivals (r # requests)) w = run env (arrivals requests) ?w1"
    by (simp add: run_def arrivals_def r s)
  also have "\<dots> = ?w1 \<lparr> w_pending := w_pending ?w1 @
                  map (\<lambda>(rid, clock, body). (rid, clock, AwaitIngest K (ingest_url K body))) requests,
               w_calls := w_calls ?w1 @
                  map (\<lambda>(rid, clock, body). IngestCall (ingest_url K body)) requests \<rparr>"
    using Cons.prems by (intro Cons.IH) simp_all
  finally show ?case by (simp add: r)
qed

text \<open>
  Claim C4, amended. The server keeps no in-flight marker: a request calls a stage's
  compute function whenever its own lookup misses. When N requests for one key arrive on
  a cache that holds no tree for the key, before any of them is resumed, each of them
  observes the miss and calls ingestion itself: N calls, one per request, in arrival
  order, and no cache is written in between.
\<close>

theorem overlapping_arrivals_each_call_ingestion:
  assumes "\<forall>(rid, clock, body) \<in> set requests. request_cacheKey body = Inr K"
    and "repoCache st K = None"
  shows "w_calls (run env (arrivals requests) (world_of st)) =
           map (\<lambda>(rid, clock, body). IngestCall (ingest_url K body)) requests
       \<and> length (w_calls (run env (arrivals requests) (world_of st))) = length requests
       \<and> w_state (run env (arrivals requests) (world_of st)) = st"
proof -
  have "repoCache (w_state (world_of st)) K = None"
    using assms(2) by (simp add: world_of_def)
  from arrivals_cold[OF assms(1) this, of env] show ?thesis
    by (simp add: world_of_def)
qed

theorem overlapping_arrivals_witness:
  "request_cacheKey (url_body ''https://github.com/o/r'') = Inr ''o/r''
   \<and> repoCache empty_state ''o/r'' = None
   \<and> w_calls (run (demo_http (named_tree ''o/r'') [demo_rec ''Shop.sol'' ''Sale''])
                (arrivals [(1, clock_at 0, url_body ''https://github.com/o/r''),
                           (2, clock_at 0, url_body ''https://github.com/o/r'')])
                (world_of empty_state))
       = [IngestCall ''https://github.com/o/r'', IngestCall ''https://github.com/o/r'']"
proof -
  have k: "\<forall>(rid, clock, body) \<in> set [(1::nat, clock_at 0, url_body ''https://github.com/o/r''),
                                        (2, clock_at 0, url_body ''https://github.com/o/r'')].
             request_cacheKey body = Inr ''o/r''"
    by (simp add: demo_cacheKey)
  have c: "repoCache empty_state ''o/r'' = None"
    by (simp add: empty_state_def)
  have u: "ingest_url ''o/r'' (url_body ''https://github.com/o/r'') = ''https://github.com/o/r''"
    by (simp add: ingest_url_def url_body_def or_else_def)
  from overlapping_arrivals_each_call_ingestion [OF k c] u demo_cacheKey c
  show ?thesis by simp
qed

lemma resume_replied [simp]: "resume env clock (Replied r, st) = (Replied r, st)"
  by (simp add: resume_def)

lemma resume_suspended [simp]: "resume env clock (Suspended p, st) = settle env clock p st"
  by (simp add: resume_def)

lemma resume_from_plan:
  "resume env clock (from_plan tree a p st) =
     (Replied (Success (transform_response
        (transformRepository (he_transformer env) (k_reportIso clock) (k_reportNow clock)
           (pc_plan p) (an_analysisResult a) tree))), st)"
  by (simp add: from_plan_def settle_def)

lemma resume_from_analysis:
  "resume env clock (resume env clock (from_analysis clock K tree a st)) =
     (case plan_stage env clock K a st of
        Inl msg \<Rightarrow> (Replied (Failure 500 msg), st)
      | Inr (p, st3) \<Rightarrow>
          (Replied (Success (transform_response
             (transformRepository (he_transformer env) (k_reportIso clock) (k_reportNow clock)
                (pc_plan p) (an_analysisResult a) tree))), st3))"
proof (cases "case planCache st K of None \<Rightarrow> True
              | Some e \<Rightarrow> expired (k_planCheck clock) (pc_timestamp e)")
  case True
  then have f: "from_analysis clock K tree a st = (Suspended (AwaitPlan K tree a), st)"
    by (auto simp: from_analysis_def split: option.splits)
  show ?thesis
  proof (cases "planMigration (he_planner env) (k_planIso clock) (k_planNow clock)
                  (an_repoMetadata a) (an_analysisResult a)")
    case (Inl msg)
    with True show ?thesis
      unfolding f by (auto simp: settle_def plan_stage_def Let_def split: option.splits)
  next
    case (Inr plan)
    with True show ?thesis
      unfolding f
      by (auto simp: settle_def plan_stage_def Let_def resume_from_plan split: option.splits)
  qed
next
  case False
  then obtain e where e: "planCache st K = Some e" "\<not> expired (k_planCheck clock) (pc_timestamp e)"
    by (auto split: option.splits)
  then have f: "from_analysis clock K tree a st = from_plan tree a e st"
    by (simp add: from_analysis_def)
  have p: "plan_stage env clock K a st = Inr (e, st)"
    using e by (simp add: plan_stage_def Let_def)
  show ?thesis unfolding f p resume_from_plan by simp
qed

lemma resume_from_tree:
  "resume env clock (resume env clock (resume env clock (from_tree clock K tree st))) =
     (case analysis_stage env clock K tree st of
        (a, st2) \<Rightarrow>
          (case plan_stage env clock K a st2 of
             Inl msg \<Rightarrow> (Replied (Failure 500 msg), st2)
           | Inr (p, st3) \<Rightarrow>
               (Replied (Success (transform_response
                  (transformRepository (he_transformer env) (k_reportIso clock) (k_reportNow clock)
                     (pc_plan p) (an_analysisResult a) tree))), st3)))"
proof (cases "case analysisCache st K of None \<Rightarrow> True
              | Some e \<Rightarrow> expired (k_analysisCheck clock) (an_timestamp e)")
  case True
  then have f: "from_tree clock K tree st = (Suspended (AwaitAnalysis K tree), st)"
    by (auto simp: from_tree_def split: option.splits)
  have a: "analysis_stage env clock K tree st =
             (fresh_analysis env clock tree,
              st \<lparr> analysisCache := (analysisCache st)(K \<mapsto> fresh_analysis env clock tree) \<rparr>)"
    using True by (auto simp: analysis_stage_def fresh_analysis_def Let_def split: option.splits)
  have s: "settle env clock (AwaitAnalysis K tree) st =
             from_analysis clock K tree (fresh_analysis env clock tree)
               (st \<lparr> analysisCache := (analysisCache st)(K \<mapsto> fresh_analysis env clock tree) \<rparr>)"
    by (simp add: settle_def fresh_analysis_def Let_def)
  show ?thesis unfolding f a resume_suspended s resume_from_analysis by simp
next
  case False
  then obtain e where e: "analysisCache st K = Some e"
      "\<not> expired (k_analysisCheck clock) (an_timestamp e)"
    by (auto split: option.splits)
  then have f: "from_tree clock K tree st = from_analysis clock K tree e st"
    by (simp add: from_tree_def)
  have a: "analysis_stage env clock K tree st = (e, st)"
    using e by (simp add: analysis_stage_def)
  have r: "resume env clock (case plan_stage env clock K e st of
        Inl msg \<Rightarrow> (Replied (Failure 500 msg), st)
      | Inr (p, st3) \<Rightarrow>
          (Replied (Success (transform_response
             (transformRepository (he_transformer env) (k_reportIso clock) (k_reportNow clock)
                (pc_plan p) (an_analysisResult e) tree))), st3))
     = (case plan_stage env clock K e st of
        Inl msg \<Rightarrow> (Replied (Failure 500 msg), st)
      | Inr (p, st3) \<Rightarrow>
          (Replied (Success (transform_response
             (transformRepository (he_transformer env) (k_reportIso clock) (k_reportNow clock)
                (pc_plan p) (an_analysisResult e) tree))), st3))"
    by (auto split: sum.splits)
  show ?thesis unfolding f a resume_from_analysis r by simp
qed

lemma replied_outcome:
  "(case handleTransformRequest env clock body st of (response, st') \<Rightarrow> (Replied response, st'))
     = (Replied (fst (handleTransformRequest env clock body st)),
        snd (handleTransformRequest env clock body st))"
  by (simp add: case_prod_unfold)

lemma handler_outcome:
  "(Replied (fst (case x of
        (a, st2) \<Rightarrow>
          (case f a st2 of
             Inl msg \<Rightarrow> (Failure 500 msg, st2)
           | Inr (p, st3) \<Rightarrow> (Success (g a p), st3)))),
    snd (case x of
        (a, st2) \<Rightarrow>
          (case f a st2 of
             Inl msg \<Rightarrow> (Failure 500 msg, st2)
           | Inr (p, st3) \<Rightarrow> (Success (g a p), st3))))
   = (case x of
        (a, st2) \<Rightarrow>
          (case f a st2 of
             Inl msg \<Rightarrow> (Replied (Failure 500 msg), st2)
           | Inr (p, st3) \<Rightarrow> (Replied (Success (g a p)), st3)))"
  by (auto split: prod.splits sum.splits)

lemma resume_idle:
  "fst x = Replied r \<Longrightarrow> resume env clock x = x"
  by (simp add: resume_def)

lemma resume_from_tree_done:
  "\<exists>r. fst (resume env clock (resume env clock (resume env clock (from_tree clock K tree st))))
          = Replied r"
  unfolding resume_from_tree by (auto split: prod.splits sum.splits)

lemma resume_from_tree4:
  "resume env clock (resume env clock (resume env clock (resume env clock
       (from_tree clock K tree st)))) =
     (case analysis_stage env clock K tree st of
        (a, st2) \<Rightarrow>
          (case plan_stage env clock K a st2 of
             Inl msg \<Rightarrow> (Replied (Failure 500 msg), st2)
           | Inr (p, st3) \<Rightarrow>
               (Replied (Success (transform_response
                  (transformRepository (he_transformer env) (k_reportIso clock) (k_reportNow clock)
                     (pc_plan p) (an_analysisResult a) tree))), st3)))"
proof -
  from resume_from_tree_done[of env clock K tree st] obtain r where
    "fst (resume env clock (resume env clock (resume env clock (from_tree clock K tree st))))
       = Replied r" by blast
  from resume_idle[OF this] show ?thesis by (simp add: resume_from_tree)
qed

lemma resume_arrive:
  "resume env clock (resume env clock (resume env clock (resume env clock (arrive clock body st))))
     = (Replied (fst (handleTransformRequest env clock body st)),
        snd (handleTransformRequest env clock body st))"
proof (cases "request_cacheKey body")
  case (Inl msg)
  then show ?thesis by (simp add: arrive_def handleTransformRequest_def)
next
  case (Inr K)
  note key = Inr
  show ?thesis
  proof (cases "repoCache st K")
    case (Some tree)
    have t: "tree_stage env body K st = Inr (tree, st)" using Some by (simp add: tree_stage_def)
    have a: "arrive clock body st = from_tree clock K tree st"
      using key Some by (simp add: arrive_def)
    have h: "handleTransformRequest env clock body st =
       (case analysis_stage env clock K tree st of
        (a, st2) \<Rightarrow>
          (case plan_stage env clock K a st2 of
             Inl msg \<Rightarrow> (Failure 500 msg, st2)
           | Inr (p, st3) \<Rightarrow>
               (Success (transform_response
                  (transformRepository (he_transformer env) (k_reportIso clock) (k_reportNow clock)
                     (pc_plan p) (an_analysisResult a) tree)), st3)))"
      by (simp add: handleTransformRequest_def key t)
    show ?thesis
      unfolding a resume_from_tree4 h by (rule handler_outcome[symmetric])
  next
    case None
    have a: "arrive clock body st = (Suspended (AwaitIngest K (ingest_url K body)), st)"
      using key None by (simp add: arrive_def)
    show ?thesis
    proof (cases "he_ingest env (ingest_url K body)")
      case (Inl msg)
      have t: "tree_stage env body K st = Inl msg"
        using None Inl by (simp add: tree_stage_def ingest_url_def Let_def)
      have s: "settle env clock (AwaitIngest K (ingest_url K body)) st
                 = (Replied (Failure 500 msg), st)"
        using Inl by (simp add: settle_def)
      show ?thesis
        unfolding a resume_suspended s by (simp add: handleTransformRequest_def key t)
    next
      case (Inr tree)
      let ?st1 = "st \<lparr> repoCache := (repoCache st)(K \<mapsto> tree) \<rparr>"
      have t: "tree_stage env body K st = Inr (tree, ?st1)"
        using None Inr by (simp add: tree_stage_def ingest_url_def Let_def)
      have s: "settle env clock (AwaitIngest K (ingest_url K body)) st = from_tree clock K tree ?st1"
        using Inr by (simp add: settle_def)
      have h: "handleTransformRequest env clock body st =
       (case analysis_stage env clock K tree ?st1 of
        (a, st2) \<Rightarrow>
          (case plan_stage env clock K a st2 of
             Inl msg \<Rightarrow> (Failure 500 msg, st2)
           | Inr (p, st3) \<Rightarrow>
               (Success (transform_response
                  (transformRepository (he_transformer env) (k_reportIso clock) (k_reportNow clock)
                     (pc_plan p) (an_analysisResult a) tree)), st3)))"
        by (simp add: handleTransformRequest_def key t)
      show ?thesis
        unfolding a resume_suspended s resume_from_tree h by (rule handler_outcome[symmetric])
    qed
  qed
qed

lemma follows_arrive:
  "follows rid clock (step env (Arrive rid clock body) (world_of st)) (arrive clock body st)"
  by (cases "fst (arrive clock body st)")
     (simp_all add: follows_def step_def record_progress_def world_of_def)

lemma follows_settle:
  assumes "follows rid clock w x"
  shows "follows rid clock (step env (Settle rid) w) (resume env clock x)"
proof (cases "fst x")
  case (Replied r)
  with assms have "w_pending w = []" by (simp add: follows_def)
  then have "step env (Settle rid) w = w" by (simp add: step_def)
  with assms Replied show ?thesis by (simp add: resume_def)
next
  case (Suspended p)
  with assms have w: "w_pending w = [(rid, clock, p)]" "w_replies w = []" "w_state w = snd x"
    by (simp_all add: follows_def)
  have r: "resume env clock x = settle env clock p (snd x)"
    using Suspended by (simp add: resume_def)
  show ?thesis
    unfolding r
    by (cases "fst (settle env clock p (snd x))")
       (simp_all add: follows_def step_def record_progress_def w)
qed

text \<open>
  A request that runs alone, resumed each time before anything else happens, is the
  transform handler of the previous sections: same answer, same caches behind it.
\<close>

lemma run_alone_is_handler:
  "w_replies (run env [Arrive rid clock body, Settle rid, Settle rid, Settle rid, Settle rid]
                (world_of st))
      = [(rid, fst (handleTransformRequest env clock body st))]
   \<and> w_state (run env [Arrive rid clock body, Settle rid, Settle rid, Settle rid, Settle rid]
                (world_of st))
      = snd (handleTransformRequest env clock body st)
   \<and> w_pending (run env [Arrive rid clock body, Settle rid, Settle rid, Settle rid, Settle rid]
                (world_of st)) = []"
proof -
  have "follows rid clock
          (run env [Arrive rid clock body, Settle rid, Settle rid, Settle rid, Settle rid]
             (world_of st))
          (resume env clock (resume env clock (resume env clock (resume env clock
             (arrive clock body st)))))"
    unfolding run_def fold_simps
    by (intro follows_settle follows_arrive)
  then show ?thesis
    unfolding resume_arrive by (simp add: follows_def)
qed


end
